theory Spec2Isabelle
  imports Main
begin


section \<open>Python values shared by the resolver and the validators\<close>

text \<open>
  A Python \<open>str\<close> is a sequence of Unicode code points; the resolver's patterns contain
  Cyrillic words and dash characters, so a string is a list of code points and not a
  list of bytes. \<open>cps\<close> turns an ASCII literal into such a string.
\<close>

type_synonym pystr = "nat list"

definition cps :: "string \<Rightarrow> pystr" where
  "cps s = map of_char s"

text \<open>The exceptions that the modelled code can let escape: three of Python, and the
  error of the store's driver (\<open>neo4j.exceptions.Neo4jError\<close>).\<close>

datatype py_error = ValueError | TypeError | IndexError | Neo4jError

text \<open>
  The Unicode character database of the Python runtime is not part of the repository. The
  three facts the resolver uses are taken as a parameter: the decimal value of a code point
  (what \<open>\d\<close> matches and what \<open>int()\<close> reads), whether a code point is white space (what
  \<open>str.strip\<close> removes and what \<open>\s\<close> matches), and whether a cased letter of a pattern
  matches a code point of the text under \<open>re.IGNORECASE\<close>.
\<close>

record unicode =
  digit_value :: "nat \<Rightarrow> nat option"
  is_space :: "nat \<Rightarrow> bool"
  ci_equal :: "nat \<Rightarrow> nat \<Rightarrow> bool"

definition is_digit :: "unicode \<Rightarrow> nat \<Rightarrow> bool" where
  "is_digit U c = (case digit_value U c of Some d \<Rightarrow> d < 10 | None \<Rightarrow> False)"

text \<open>
  A concrete table for evaluation: ASCII digits, the white space of \<open>str.isspace\<close>, and
  case folding of the ASCII letters and of the Cyrillic letters U+0400 to U+045F.
\<close>

definition lower_cp :: "nat \<Rightarrow> nat" where
  "lower_cp c =
     (if 65 \<le> c \<and> c \<le> 90 then c + 32
      else if 1040 \<le> c \<and> c \<le> 1071 then c + 32
      else if 1024 \<le> c \<and> c \<le> 1039 then c + 80
      else c)"

definition space_cps :: "nat list" where
  "space_cps = [9, 10, 11, 12, 13, 28, 29, 30, 31, 32, 133, 160, 5760,
     8192, 8193, 8194, 8195, 8196, 8197, 8198, 8199, 8200, 8201, 8202,
     8232, 8233, 8239, 8287, 12288]"

definition ascii_cyrillic :: unicode where
  "ascii_cyrillic =
     \<lparr> digit_value = (\<lambda>c. if 48 \<le> c \<and> c \<le> 57 then Some (c - 48) else None),
       is_space = (\<lambda>c. c \<in> set space_cps),
       ci_equal = (\<lambda>p t. lower_cp p = lower_cp t) \<rparr>"

text \<open>
  \<open>int(s)\<close> on a string of decimal digits. Python's \<open>int\<close> also accepts signs, surrounding
  white space and underscores; the resolver only calls it on a group matched by \<open>\d{4}\<close>,
  and every other string is the \<open>ValueError\<close> branch here.
\<close>

definition digit_of :: "unicode \<Rightarrow> nat \<Rightarrow> nat" where
  "digit_of U c = (case digit_value U c of Some d \<Rightarrow> d | None \<Rightarrow> 0)"

definition py_int :: "unicode \<Rightarrow> pystr \<Rightarrow> py_error + int" where
  "py_int U s =
     (if s \<noteq> [] \<and> list_all (is_digit U) s
      then Inr (int (foldl (\<lambda>acc c. 10 * acc + digit_of U c) 0 s))
      else Inl ValueError)"

text \<open>
  \<open>str(n)\<close> for an integer: the decimal digits, with a minus sign below zero. From
  CPython 3.11 the conversion raises \<open>ValueError\<close> when the integer has more digits than
  \<open>sys.int_info.default_max_str_digits\<close>, 4300, that is when its absolute value is at
  least \<open>10 ^ 4300\<close>.
\<close>

fun digits_of_nat :: "nat \<Rightarrow> pystr" where
  "digits_of_nat n = (if n < 10 then [48 + n] else digits_of_nat (n div 10) @ [48 + n mod 10])"

declare digits_of_nat.simps [simp del]

definition int_max_str_digits :: nat where
  "int_max_str_digits = 4300"

definition str_of_int :: "int \<Rightarrow> py_error + pystr" where
  "str_of_int i =
     (if 10 ^ int_max_str_digits \<le> \<bar>i\<bar> then Inl ValueError
      else Inr (if i < 0 then 45 # digits_of_nat (nat (- i)) else digits_of_nat (nat i)))"

text \<open>\<open>str.strip()\<close>: leading and trailing white space removed.\<close>

definition strip :: "unicode \<Rightarrow> pystr \<Rightarrow> pystr" where
  "strip U s = rev (dropWhile (is_space U) (rev (dropWhile (is_space U) s)))"

section \<open>Regular expressions of the resolver\<close>

text \<open>
  The patterns of \<open>TimeResolver.PATTERNS\<close> use character classes, sequence, alternation,
  greedy \<open>?\<close>, greedy \<open>*\<close> and \<open>+\<close> on \<open>\s\<close> only, capturing groups and \<open>$\<close>. The
  matcher returns every way of matching a prefix, in the order in which Python's
  backtracking engine tries them (left alternative first, longer repetition first), with
  the rest of the text and the groups captured so far; the match Python reports is the
  first one.
\<close>

datatype cclass =
    CLit nat          \<comment> \<open>an uncased literal, compared exactly\<close>
  | CLitI nat         \<comment> \<open>a cased letter under \<open>IGNORECASE\<close>\<close>
  | CDigit            \<comment> \<open>\<open>\d\<close>\<close>
  | CSpace            \<comment> \<open>\<open>\s\<close>\<close>
  | CSet "nat list"   \<comment> \<open>a set of uncased literals, \<open>[...]\<close>\<close>

datatype regex =
    Chr cclass
  | Seq regex regex
  | Alt regex regex
  | Opt regex
  | Star cclass
  | Group regex
  | Eol               \<comment> \<open>\<open>$\<close>: the end of the text, or just before a final newline\<close>

fun cmatch :: "unicode \<Rightarrow> cclass \<Rightarrow> nat \<Rightarrow> bool" where
  "cmatch U (CLit p) t = (p = t)"
| "cmatch U (CLitI p) t = ci_equal U p t"
| "cmatch U CDigit t = is_digit U t"
| "cmatch U CSpace t = is_space U t"
| "cmatch U (CSet ps) t = (t \<in> set ps)"

fun rmatch :: "unicode \<Rightarrow> regex \<Rightarrow> pystr \<Rightarrow> pystr list \<Rightarrow> (pystr \<times> pystr list) list" where
  "rmatch U (Chr cl) [] caps = []"
| "rmatch U (Chr cl) (t # ts) caps = (if cmatch U cl t then [(ts, caps)] else [])"
| "rmatch U (Seq a b) s caps =
     concat (map (\<lambda>(s', caps'). rmatch U b s' caps') (rmatch U a s caps))"
| "rmatch U (Alt a b) s caps = rmatch U a s caps @ rmatch U b s caps"
| "rmatch U (Opt a) s caps = rmatch U a s caps @ [(s, caps)]"
| "rmatch U (Star cl) [] caps = [([], caps)]"
| "rmatch U (Star cl) (t # ts) caps =
     (if cmatch U cl t then rmatch U (Star cl) ts caps @ [(t # ts, caps)] else [(t # ts, caps)])"
| "rmatch U (Group a) s caps =
     map (\<lambda>(s', caps'). (s', caps' @ [take (length s - length s') s])) (rmatch U a s caps)"
| "rmatch U Eol s caps = (if s = [] \<or> s = [10] then [(s, caps)] else [])"

text \<open>\<open>pattern.match(text)\<close>: the groups of the first match at the start of the text.\<close>

definition re_match :: "unicode \<Rightarrow> regex \<Rightarrow> pystr \<Rightarrow> pystr list option" where
  "re_match U r s = (case rmatch U r s [] of [] \<Rightarrow> None | (s', caps) # _ \<Rightarrow> Some caps)"

text \<open>\<open>pattern.search(text)\<close>: the first match at the leftmost position that has one.\<close>

fun re_search :: "unicode \<Rightarrow> regex \<Rightarrow> pystr \<Rightarrow> pystr list option" where
  "re_search U r [] = re_match U r []"
| "re_search U r (t # ts) =
     (case re_match U r (t # ts) of Some caps \<Rightarrow> Some caps | None \<Rightarrow> re_search U r ts)"

text \<open>\<open>match.group(i)\<close> for \<open>i \<ge> 1\<close>; a group the pattern does not have is an \<open>IndexError\<close>.\<close>

definition group :: "pystr list \<Rightarrow> nat \<Rightarrow> py_error + pystr" where
  "group caps i = (if 1 \<le> i \<and> i \<le> length caps then Inr (caps ! (i - 1)) else Inl IndexError)"

subsection \<open>The patterns\<close>

definition lits :: "nat list \<Rightarrow> regex \<Rightarrow> regex" where
  "lits ps r = foldr (\<lambda>p acc. Seq (Chr (CLitI p)) acc) ps r"

definition d4 :: regex where
  "d4 = Seq (Chr CDigit) (Seq (Chr CDigit) (Seq (Chr CDigit) (Chr CDigit)))"

definition d12 :: regex where
  "d12 = Seq (Chr CDigit) (Opt (Chr CDigit))"

definition date_sep :: regex where
  "date_sep = Chr (CSet [45, 46, 47])"

definition spaces1 :: regex where
  "spaces1 = Seq (Chr CSpace) (Star CSpace)"

text \<open>\<^verbatim>\<open>^(\d{4})(?:[-./]\d{1,2}[-./]\d{1,2})?$\<close>\<close>

definition pat_exact :: regex where
  "pat_exact =
     Seq (Group d4) (Seq (Opt (Seq date_sep (Seq d12 (Seq date_sep d12)))) Eol)"

text \<open>\<^verbatim>\<open>^\d{1,2}[-./]\d{1,2}[-./](\d{4})$\<close>\<close>

definition pat_exact_euro :: regex where
  "pat_exact_euro =
     Seq d12 (Seq date_sep (Seq d12 (Seq date_sep (Seq (Group d4) Eol))))"

text \<open>
  \<^verbatim>\<open>^(?:c\.?\s*|~|U+2248|circa\s+|<blyzko>\s+|<pryblyzno>\s+|<bilia>\s+)(\d{4})$\<close>, the
  three Ukrainian words given by their code points.
\<close>

definition approx_marker :: regex where
  "approx_marker =
     Alt (Seq (Chr (CLitI 99)) (Seq (Opt (Chr (CLit 46))) (Star CSpace)))
    (Alt (Chr (CLit 126))
    (Alt (Chr (CLit 8776))
    (Alt (lits [99, 105, 114, 99, 97] spaces1)
    (Alt (lits [1073, 1083, 1080, 1079, 1100, 1082, 1086] spaces1)
    (Alt (lits [1087, 1088, 1080, 1073, 1083, 1080, 1079, 1085, 1086] spaces1)
         (lits [1073, 1110, 1083, 1103] spaces1))))))"

definition pat_approximate :: regex where
  "pat_approximate = Seq approx_marker (Seq (Group d4) Eol)"

text \<open>\<^verbatim>\<open>^(\d{4})(?:\.{2}|[-U+2013U+2014])(\d{4})$\<close>\<close>

definition pat_range :: regex where
  "pat_range =
     Seq (Group d4)
      (Seq (Alt (Seq (Chr (CLit 46)) (Chr (CLit 46))) (Chr (CSet [45, 8211, 8212])))
      (Seq (Group d4) Eol))"

text \<open>
  \<^verbatim>\<open>^(?:\?|unknown|<nevidomo>|empty|<ne>\s*<vidomo>|\s*)$\<close>
\<close>

definition pat_unknown :: regex where
  "pat_unknown =
     Seq (Alt (Chr (CLit 63))
         (Alt (lits [117, 110, 107, 110, 111, 119] (Chr (CLitI 110)))
         (Alt (lits [1085, 1077, 1074, 1110, 1076, 1086, 1084] (Chr (CLitI 1086)))
         (Alt (lits [101, 109, 112, 116] (Chr (CLitI 121)))
         (Alt (lits [1085, 1077] (Seq (Star CSpace)
                 (lits [1074, 1110, 1076, 1086, 1084] (Chr (CLitI 1086)))))
              (Star CSpace))))))
       Eol"

text \<open>\<^verbatim>\<open>(\d{4})\<close>\<close>

definition pat_year_in_text :: regex where
  "pat_year_in_text = Group d4"

section \<open>TimeResolver\<close>

datatype py_date = PyNone | PyInt int | PyStr pystr

datatype confidence = Exact | Approximate | Range | Unknown

record ResolvedDate =
  year :: "int option"
  original :: pystr
  is_approximate :: bool
  range_start :: "int option"
  range_end :: "int option"
  confidence :: confidence

definition unknown_date :: "pystr \<Rightarrow> ResolvedDate" where
  "unknown_date text =
     \<lparr> year = None, original = text, is_approximate = False,
       range_start = None, range_end = None, confidence = Unknown \<rparr>"

definition exact_date :: "int \<Rightarrow> pystr \<Rightarrow> ResolvedDate" where
  "exact_date y text =
     \<lparr> year = Some y, original = text, is_approximate = False,
       range_start = None, range_end = None, confidence = Exact \<rparr>"

definition approximate_date :: "int \<Rightarrow> pystr \<Rightarrow> ResolvedDate" where
  "approximate_date y text =
     \<lparr> year = Some y, original = text, is_approximate = True,
       range_start = None, range_end = None, confidence = Approximate \<rparr>"

definition range_date :: "int \<Rightarrow> int \<Rightarrow> pystr \<Rightarrow> ResolvedDate" where
  "range_date start end text =
     \<lparr> year = Some ((start + end) div 2), original = text, is_approximate = True,
       range_start = Some start, range_end = Some end, confidence = Range \<rparr>"

text \<open>\<open>int(match.group(i))\<close>, either call raising.\<close>

definition int_group :: "unicode \<Rightarrow> pystr list \<Rightarrow> nat \<Rightarrow> py_error + int" where
  "int_group U caps i = (case group caps i of Inl e \<Rightarrow> Inl e | Inr g \<Rightarrow> py_int U g)"

text \<open>The last two steps of \<open>resolve\<close>: the first year found in the text, kept when it lies
  in 1000..2100, and the final \<open>unknown\<close>.\<close>

definition resolve_in_text :: "unicode \<Rightarrow> pystr \<Rightarrow> py_error + ResolvedDate" where
  "resolve_in_text U text =
     (case re_search U pat_year_in_text text of
        Some caps \<Rightarrow>
          (case int_group U caps 1 of
             Inl e \<Rightarrow> Inl e
           | Inr y \<Rightarrow> if 1000 \<le> y \<and> y \<le> 2100 then Inr (approximate_date y text)
                      else Inr (unknown_date text))
      | None \<Rightarrow> Inr (unknown_date text))"

definition resolve_range :: "unicode \<Rightarrow> pystr \<Rightarrow> py_error + ResolvedDate" where
  "resolve_range U text =
     (case re_match U pat_range text of
        Some caps \<Rightarrow>
          (case int_group U caps 1 of
             Inl e \<Rightarrow> Inl e
           | Inr start \<Rightarrow>
               (case int_group U caps 2 of
                  Inl e \<Rightarrow> Inl e
                | Inr end \<Rightarrow> Inr (range_date start end text)))
      | None \<Rightarrow> resolve_in_text U text)"

definition resolve_approximate :: "unicode \<Rightarrow> pystr \<Rightarrow> py_error + ResolvedDate" where
  "resolve_approximate U text =
     (case re_match U pat_approximate text of
        Some caps \<Rightarrow>
          (case int_group U caps 1 of
             Inl e \<Rightarrow> Inl e
           | Inr y \<Rightarrow> Inr (approximate_date y text))
      | None \<Rightarrow> resolve_range U text)"

definition resolve_exact_euro :: "unicode \<Rightarrow> pystr \<Rightarrow> py_error + ResolvedDate" where
  "resolve_exact_euro U text =
     (case re_match U pat_exact_euro text of
        Some caps \<Rightarrow>
          (case int_group U caps 1 of
             Inl e \<Rightarrow> Inl e
           | Inr y \<Rightarrow> Inr (exact_date y text))
      | None \<Rightarrow> resolve_approximate U text)"

definition resolve_exact :: "unicode \<Rightarrow> pystr \<Rightarrow> py_error + ResolvedDate" where
  "resolve_exact U text =
     (case re_match U pat_exact text of
        Some caps \<Rightarrow>
          (case int_group U caps 1 of
             Inl e \<Rightarrow> Inl e
           | Inr y \<Rightarrow> Inr (exact_date y text))
      | None \<Rightarrow> resolve_exact_euro U text)"

text \<open>\<open>TimeResolver.resolve\<close>. The chain of \<open>if match: return\<close> statements is the chain of
  definitions above, in the order of the source.\<close>

definition resolve :: "unicode \<Rightarrow> py_date \<Rightarrow> py_error + ResolvedDate" where
  "resolve U date_input =
     (case date_input of
        PyNone \<Rightarrow> Inr (unknown_date [])
      | PyInt n \<Rightarrow>
          (case str_of_int n of Inl e \<Rightarrow> Inl e | Inr text \<Rightarrow> Inr (exact_date n text))
      | PyStr s \<Rightarrow>
          (let text = strip U s in
           if text = [] then Inr (unknown_date [])
           else if re_match U pat_unknown text \<noteq> None then Inr (unknown_date text)
           else resolve_exact U text))"

definition resolve_year :: "unicode \<Rightarrow> py_date \<Rightarrow> py_error + int option" where
  "resolve_year U date_input =
     (case resolve U date_input of Inl e \<Rightarrow> Inl e | Inr r \<Rightarrow> Inr (year r))"

text \<open>What the claims about the resolver speak of: a captured year is four decimal digits,
  and the patterns capture nothing else.\<close>

definition year_str :: "unicode \<Rightarrow> pystr \<Rightarrow> bool" where
  "year_str U g = (length g = 4 \<and> list_all (is_digit U) g)"

fun gcount :: "regex \<Rightarrow> nat" where
  "gcount (Seq a b) = gcount a + gcount b"
| "gcount (Group a) = 1"
| "gcount r = 0"

fun year_groups :: "regex \<Rightarrow> bool" where
  "year_groups (Seq a b) = (year_groups a \<and> year_groups b)"
| "year_groups (Alt a b) = (year_groups a \<and> year_groups b \<and> gcount a = 0 \<and> gcount b = 0)"
| "year_groups (Opt a) = (year_groups a \<and> gcount a = 0)"
| "year_groups (Group a) = (a = d4)"
| "year_groups r = True"

text \<open>
  The recognized forms of an input, in the words of the specification: a numeric year, an
  unknown token (null, empty, \<open>?\<close>, a word for "unknown"), an exact date, an approximate
  year, a range, or a text whose first run of four digits is a year in 1000..2100.
\<close>

definition year_in_text_form :: "unicode \<Rightarrow> pystr \<Rightarrow> bool" where
  "year_in_text_form U text =
     (case re_search U pat_year_in_text text of
        None \<Rightarrow> False
      | Some caps \<Rightarrow>
          (case int_group U caps 1 of Inl e \<Rightarrow> False | Inr y \<Rightarrow> 1000 \<le> y \<and> y \<le> 2100))"

definition recognized_form :: "unicode \<Rightarrow> py_date \<Rightarrow> bool" where
  "recognized_form U x =
     (case x of
        PyNone \<Rightarrow> True
      | PyInt n \<Rightarrow> True
      | PyStr s \<Rightarrow>
          (let text = strip U s in
           text = [] \<or> re_match U pat_unknown text \<noteq> None
           \<or> re_match U pat_exact text \<noteq> None
           \<or> re_match U pat_exact_euro text \<noteq> None
           \<or> re_match U pat_approximate text \<noteq> None
           \<or> re_match U pat_range text \<noteq> None
           \<or> year_in_text_form U text))"

section \<open>FamilyValidator\<close>

datatype ValidationLevel = ERROR | WARNING | SKIPPED

text \<open>
  The message of a result is an f-string; it is kept as the template it comes from together
  with the values interpolated into it. The text itself is not rendered, so the
  conversion of an interpolated number to text, with the limit of \<open>str_of_int\<close>, is not
  part of the validators below.
\<close>

datatype message =
    Msg_T1 py_date py_date      \<comment> \<open>death year, birth year as given\<close>
  | Msg_Z3_age int
  | Msg_Z3_immortal py_date int
  | Msg_skipped
  | Msg_T2
  | Msg_B1 int
  | Msg_B2 int
  | Msg_T3 int
  | Msg_T4 int
  | Msg_T5 int
  | Msg_T6 py_date py_date
  | Msg_Z1 py_date py_date

record ValidationResult =
  valid :: bool
  level :: ValidationLevel
  code :: string
  message :: message

definition MIN_PARENT_AGE :: int where "MIN_PARENT_AGE = 10"
definition MAX_MOTHER_AGE :: int where "MAX_MOTHER_AGE = 60"
definition MAX_FATHER_POSTHUMOUS :: int where "MAX_FATHER_POSTHUMOUS = 1"

definition result :: "bool \<Rightarrow> ValidationLevel \<Rightarrow> string \<Rightarrow> message \<Rightarrow> ValidationResult" where
  "result v l c m = \<lparr> valid = v, level = l, code = c, message = m \<rparr>"



text \<open>\<open>validate_parent_child_dates\<close> once \<open>p_birth\<close> and \<open>c_birth\<close> are known to be years.
  \<open>parent_gender\<close> is an optional string, compared with \<open>"F"\<close> and \<open>"M"\<close>.\<close>

definition parent_child_results ::
  "int \<Rightarrow> int option \<Rightarrow> int \<Rightarrow> pystr option \<Rightarrow> ValidationResult list" where
  "parent_child_results p_birth p_death c_birth parent_gender =
     (let parent_age_at_birth = c_birth - p_birth in
      if parent_age_at_birth \<le> 0 then [result False ERROR ''T2_PARENT_YOUNGER'' Msg_T2]
      else
        (if parent_age_at_birth < MIN_PARENT_AGE
         then [result False ERROR ''B1_PARENT_TOO_YOUNG'' (Msg_B1 parent_age_at_birth)] else [])
        @ (if parent_gender = Some (cps ''F'') \<and> parent_age_at_birth > MAX_MOTHER_AGE
           then [result True WARNING ''B2_MOTHER_TOO_OLD'' (Msg_B2 parent_age_at_birth)] else [])
        @ (case p_death of
             None \<Rightarrow> []
           | Some d \<Rightarrow>
               (let years_after_death = c_birth - d in
                if parent_gender = Some (cps ''F'') \<and> years_after_death > 0
                then [result False ERROR ''T3_MOTHER_GHOST'' (Msg_T3 years_after_death)]
                else if parent_gender = Some (cps ''M'') \<and> years_after_death > MAX_FATHER_POSTHUMOUS
                then [result True WARNING ''T4_FATHER_GHOST'' (Msg_T4 years_after_death)]
                else [])))"

definition validate_parent_child_dates ::
  "unicode \<Rightarrow> py_date \<Rightarrow> py_date \<Rightarrow> py_date \<Rightarrow> pystr option
     \<Rightarrow> py_error + ValidationResult list" where
  "validate_parent_child_dates U parent_birth parent_death child_birth parent_gender =
     (case resolve_year U parent_birth of
        Inl e \<Rightarrow> Inl e
      | Inr p_birth \<Rightarrow>
     (case resolve_year U parent_death of
        Inl e \<Rightarrow> Inl e
      | Inr p_death \<Rightarrow>
     (case resolve_year U child_birth of
        Inl e \<Rightarrow> Inl e
      | Inr c_birth \<Rightarrow>
          (case (p_birth, c_birth) of
             (Some pb, Some cb) \<Rightarrow> Inr (parent_child_results pb p_death cb parent_gender)
           | _ \<Rightarrow> Inr [result True SKIPPED ''T_SKIPPED'' Msg_skipped]))))"







section \<open>The graph store\<close>

text \<open>
  \<open>Neo4jDB\<close> sends Cypher statements to a property graph. The graph is nodes with a label
  and a property map, and directed relationships with a type and a property map; a node
  has an identity of its own (\<open>nid\<close>), apart from its \<open>id\<close> property. A property never
  holds null: setting one to null removes it. \<open>datetime()\<close> is the clock of the store, a
  parameter \<open>now\<close> of every operation that writes it.
\<close>

datatype label = User | Person | Invite

datatype pval = S pystr | I int | B bool | T pystr

type_synonym props = "string \<rightharpoonup> pval"

record node =
  nid :: nat
  label :: label
  props :: props

record rel =
  src :: nat
  rtype :: string
  dst :: nat
  rprops :: props

record graph =
  nodes :: "node list"
  rels :: "rel list"
  next_nid :: nat

text \<open>\<open>SET x.k = v\<close>, and an entry \<open>k: v\<close> of a map literal in \<open>CREATE\<close>.\<close>

definition set_prop :: "props \<Rightarrow> string \<Rightarrow> pval option \<Rightarrow> props" where
  "set_prop m k v = m(k := v)"

definition props_of :: "(string \<times> pval option) list \<Rightarrow> props" where
  "props_of kvs = foldl (\<lambda>m (k, v). set_prop m k v) Map.empty kvs"

text \<open>\<open>MATCH (x:Label {k: v})\<close>.\<close>

definition match_nodes :: "graph \<Rightarrow> label \<Rightarrow> string \<Rightarrow> pval \<Rightarrow> node list" where
  "match_nodes g l k v = [n \<leftarrow> nodes g. label n = l \<and> props n k = Some v]"

text \<open>A relationship \<open>(a)-[:t]->(b)\<close> between two bound nodes.\<close>

definition is_rel :: "nat \<Rightarrow> string \<Rightarrow> nat \<Rightarrow> rel \<Rightarrow> bool" where
  "is_rel a t b r = (src r = a \<and> rtype r = t \<and> dst r = b)"

definition has_rel :: "graph \<Rightarrow> nat \<Rightarrow> string \<Rightarrow> nat \<Rightarrow> bool" where
  "has_rel g a t b = list_ex (is_rel a t b) (rels g)"

text \<open>\<open>result.single()\<close>: the first record, or \<open>None\<close> when there is none.\<close>

definition single :: "'a list \<Rightarrow> 'a option" where
  "single rows = (case rows of [] \<Rightarrow> None | r # _ \<Rightarrow> Some r)"

text \<open>\<open>CREATE (p:Label {...})\<close>: the new node takes the next identity.\<close>

definition add_node :: "graph \<Rightarrow> label \<Rightarrow> props \<Rightarrow> graph" where
  "add_node g l pr =
     g\<lparr> nodes := nodes g @ [\<lparr> nid = next_nid g, label = l, props = pr \<rparr>],
        next_nid := Suc (next_nid g) \<rparr>"

definition add_rel :: "graph \<Rightarrow> nat \<Rightarrow> string \<Rightarrow> props \<Rightarrow> nat \<Rightarrow> graph" where
  "add_rel g a t pr b = g\<lparr> rels := rels g @ [\<lparr> src = a, rtype = t, dst = b, rprops = pr \<rparr>] \<rparr>"

text \<open>
  \<open>MERGE (a)-[r:t {k: v, ...}]->(b)\<close> between bound nodes: \<open>r\<close> is every relationship of that
  type from \<open>a\<close> to \<open>b\<close> that has the properties of the pattern; when there is none, one is
  created with exactly those properties.
\<close>

definition merge_match :: "nat \<Rightarrow> string \<Rightarrow> (string \<times> pval) list \<Rightarrow> nat \<Rightarrow> rel \<Rightarrow> bool" where
  "merge_match a t ps b r = (is_rel a t b r \<and> list_all (\<lambda>(k, v). rprops r k = Some v) ps)"

definition merge_rel :: "graph \<Rightarrow> nat \<Rightarrow> string \<Rightarrow> (string \<times> pval) list \<Rightarrow> nat \<Rightarrow> graph" where
  "merge_rel g a t ps b =
     (if list_ex (merge_match a t ps b) (rels g) then g else add_rel g a t (map_of ps) b)"

text \<open>\<open>SET\<close> on every relationship, or every node, that a pattern has bound.\<close>

definition update_rels :: "graph \<Rightarrow> (rel \<Rightarrow> bool) \<Rightarrow> (props \<Rightarrow> props) \<Rightarrow> graph" where
  "update_rels g P f =
     g\<lparr> rels := map (\<lambda>r. if P r then r\<lparr> rprops := f (rprops r) \<rparr> else r) (rels g) \<rparr>"

definition update_nodes :: "graph \<Rightarrow> (node \<Rightarrow> bool) \<Rightarrow> (props \<Rightarrow> props) \<Rightarrow> graph" where
  "update_nodes g P f =
     g\<lparr> nodes := map (\<lambda>n. if P n then n\<lparr> props := f (props n) \<rparr> else n) (nodes g) \<rparr>"


section \<open>Neo4jDB: persons\<close>

record person_fields =
  name_blob :: "pystr option"
  birth_date_blob :: "pystr option"
  death_date_blob :: "pystr option"
  birth_place_blob :: "pystr option"
  death_place_blob :: "pystr option"
  private_notes_blob :: "pystr option"
  shared_notes_blob :: "pystr option"
  gender :: "pystr option"
  is_root :: bool
  birth_year_approx :: "int option"
  death_year_approx :: "int option"

text \<open>The map literal of the first \<open>CREATE (p:Person {...})\<close>; the fallback statement adds
  \<open>user_id\<close>.\<close>

definition person_props :: "pystr \<Rightarrow> pystr \<Rightarrow> person_fields \<Rightarrow> (string \<times> pval option) list" where
  "person_props now person_id f =
     [(''id'', Some (S person_id)),
      (''name_blob'', map_option S (name_blob f)),
      (''birth_date_blob'', map_option S (birth_date_blob f)),
      (''death_date_blob'', map_option S (death_date_blob f)),
      (''birth_place_blob'', map_option S (birth_place_blob f)),
      (''death_place_blob'', map_option S (death_place_blob f)),
      (''private_notes_blob'', map_option S (private_notes_blob f)),
      (''shared_notes_blob'', map_option S (shared_notes_blob f)),
      (''gender'', map_option S (gender f)),
      (''is_root'', Some (B (is_root f))),
      (''birth_year_approx'', map_option I (birth_year_approx f)),
      (''death_year_approx'', map_option I (death_year_approx f)),
      (''is_deleted'', Some (B False)),
      (''created_at'', Some (T now))]"

text \<open>One row of the first statement of \<open>create_person\<close>: for the matched user, the person
  and the \<open>OWNS\<close> relationship to it.\<close>

definition create_owned :: "props \<Rightarrow> graph \<Rightarrow> node \<Rightarrow> graph" where
  "create_owned pr g u = add_rel (add_node g Person pr) (nid u) ''OWNS'' Map.empty (next_nid g)"

text \<open>
  \<open>create_person\<close>. The result is the dictionary of the created node (with \<open>owner_id\<close> added
  on the first path), and the graph after the statements. A dictionary is a property map;
  a key that Python maps to \<open>None\<close> is an absent key here, which \<open>dict.get\<close> does not tell
  apart.
\<close>

definition create_person ::
  "graph \<Rightarrow> pystr \<Rightarrow> pystr \<Rightarrow> pystr \<Rightarrow> person_fields \<Rightarrow> props option \<times> graph" where
  "create_person g now person_id user_id f =
     (let users = match_nodes g User ''id'' (S user_id) in
      if users \<noteq> [] then
        (let pr = props_of (person_props now person_id f) in
         (Some (pr(''owner_id'' \<mapsto> S user_id)), foldl (create_owned pr) g users))
      else
        (let pr = props_of ((''user_id'', Some (S user_id)) # person_props now person_id f) in
         (Some pr, add_node g Person pr)))"

text \<open>\<open>get_person\<close>. The first statement returns a row for every user node, person node and
  owner (or null, when the person has no owner) that its pattern binds.\<close>

definition get_person_rows :: "graph \<Rightarrow> pystr \<Rightarrow> pystr \<Rightarrow> (node \<times> bool \<times> pval option) list" where
  "get_person_rows g person_id user_id =
     [(p, has_rel g (nid u) ''OWNS'' (nid p), owner_id).
        u \<leftarrow> match_nodes g User ''id'' (S user_id),
        p \<leftarrow> match_nodes g Person ''id'' (S person_id),
        has_rel g (nid u) ''OWNS'' (nid p) \<or> has_rel g (nid u) ''SHARED_WITH'' (nid p),
        owner_id \<leftarrow>
          (let owners = [props ow ''id''. ow \<leftarrow> nodes g, r \<leftarrow> rels g,
                           label ow = User \<and> is_rel (nid ow) ''OWNS'' (nid p) r]
           in if owners = [] then [None] else owners)]"

definition get_person :: "graph \<Rightarrow> pystr \<Rightarrow> pystr \<Rightarrow> props option" where
  "get_person g person_id user_id =
     (case single (get_person_rows g person_id user_id) of
        Some (p, is_owner, owner_id) \<Rightarrow>
          Some (set_prop ((props p)(''is_owner'' \<mapsto> B is_owner)) ''owner_id'' owner_id)
      | None \<Rightarrow>
          (case single [p \<leftarrow> match_nodes g Person ''id'' (S person_id).
                          props p ''user_id'' = Some (S user_id)
                          \<or> props p ''owner_id'' = Some (S user_id)] of
             Some p \<Rightarrow> Some ((props p)(''is_owner'' \<mapsto> B True))
           | None \<Rightarrow> None))"

text \<open>The endpoint \<open>GET /api/v1/person/{person_id}\<close> of \<open>main.py\<close>: the person of
  \<open>db.get_person\<close> with its sources added under \<open>"sources"\<close>, nothing removed. The sources
  come from \<open>db.get_sources_for_person\<close>, which is not modelled.\<close>

datatype http_error = HTTPException nat string

definition api_get_person ::
  "graph \<Rightarrow> 'a \<Rightarrow> pystr \<Rightarrow> pystr \<Rightarrow> http_error + (props \<times> 'a)" where
  "api_get_person g sources person_id user_id =
     (case get_person g person_id user_id of
        None \<Rightarrow> Inl (HTTPException 404 ''Person not found'')
      | Some person \<Rightarrow> Inr (person, sources))"

section \<open>Neo4jDB: deleting a person\<close>












definition person_with_id :: "pystr \<Rightarrow> node \<Rightarrow> bool" where
  "person_with_id person_id n = (label n = Person \<and> props n ''id'' = Some (S person_id))"










section \<open>Neo4jDB: family relationships\<close>

text \<open>One row of the \<open>MERGE ... MERGE ... SET\<close> statement of \<open>add_spouse\<close>, for the bound
  pair of persons: both relationships merged, the three properties set on every
  relationship the two \<open>MERGE\<close> clauses bound.\<close>

definition spouse_props :: "pystr \<Rightarrow> int \<Rightarrow> pystr \<Rightarrow> props \<Rightarrow> props" where
  "spouse_props status marriage_order marriage_type m =
     m(''status'' \<mapsto> S status, ''marriage_order'' \<mapsto> I marriage_order,
       ''marriage_type'' \<mapsto> S marriage_type)"

definition spouse_row :: "pystr \<Rightarrow> int \<Rightarrow> pystr \<Rightarrow> graph \<Rightarrow> nat \<times> nat \<Rightarrow> graph" where
  "spouse_row status marriage_order marriage_type g ab =
     (case ab of (a, b) \<Rightarrow>
        update_rels (merge_rel (merge_rel g a ''SPOUSE'' [] b) b ''SPOUSE'' [] a)
          (\<lambda>r. is_rel a ''SPOUSE'' b r \<or> is_rel b ''SPOUSE'' a r)
          (spouse_props status marriage_order marriage_type))"

definition owned_pairs :: "graph \<Rightarrow> pystr \<Rightarrow> pystr \<Rightarrow> pystr \<Rightarrow> (nat \<times> nat) list" where
  "owned_pairs g person1_id person2_id user_id =
     [(nid p1, nid p2).
        u \<leftarrow> match_nodes g User ''id'' (S user_id),
        p1 \<leftarrow> match_nodes g Person ''id'' (S person1_id), has_rel g (nid u) ''OWNS'' (nid p1),
        p2 \<leftarrow> match_nodes g Person ''id'' (S person2_id), has_rel g (nid u) ''OWNS'' (nid p2)]"

definition field_owner :: "pystr \<Rightarrow> node \<Rightarrow> bool" where
  "field_owner user_id p =
     (props p ''owner_id'' = Some (S user_id) \<or> props p ''user_id'' = Some (S user_id))"

definition legacy_pairs :: "graph \<Rightarrow> pystr \<Rightarrow> pystr \<Rightarrow> pystr \<Rightarrow> (nat \<times> nat) list" where
  "legacy_pairs g person1_id person2_id user_id =
     [(nid p1, nid p2).
        p1 \<leftarrow> match_nodes g Person ''id'' (S person1_id),
        p2 \<leftarrow> match_nodes g Person ''id'' (S person2_id),
        field_owner user_id p1 \<and> field_owner user_id p2]"

text \<open>\<open>MATCH (p1:Person {id: $person1_id})-[r:SPOUSE]-(p2:Person {id: $person2_id})\<close>, in
  either direction.\<close>

definition node_at :: "graph \<Rightarrow> nat \<Rightarrow> (node \<Rightarrow> bool) \<Rightarrow> bool" where
  "node_at g n P = list_ex (\<lambda>x. nid x = n \<and> P x) (nodes g)"

definition spouse_between :: "graph \<Rightarrow> pystr \<Rightarrow> pystr \<Rightarrow> rel \<Rightarrow> bool" where
  "spouse_between g person1_id person2_id r =
     (rtype r = ''SPOUSE'' \<and>
      (node_at g (src r) (person_with_id person1_id) \<and> node_at g (dst r) (person_with_id person2_id)
       \<or> node_at g (dst r) (person_with_id person1_id) \<and> node_at g (src r) (person_with_id person2_id)))"

definition set_between :: "graph \<Rightarrow> pystr \<Rightarrow> pystr \<Rightarrow> string \<Rightarrow> int option \<Rightarrow> graph" where
  "set_between g person1_id person2_id k v =
     (case v of
        None \<Rightarrow> g
      | Some y \<Rightarrow> update_rels g (spouse_between g person1_id person2_id) (\<lambda>m. m(k \<mapsto> I y)))"

text \<open>\<open>add_spouse\<close>. \<open>status\<close> and \<open>marriage_type\<close> are the strings sent to the store (the
  \<open>.value\<close> of the enumerations); a missing marriage type is \<open>MarriageType.CIVIL\<close>.\<close>

definition add_spouse ::
  "graph \<Rightarrow> pystr \<Rightarrow> pystr \<Rightarrow> pystr \<Rightarrow> int option \<Rightarrow> int option \<Rightarrow> pystr \<Rightarrow> pystr option \<Rightarrow> int
     \<Rightarrow> bool \<times> graph" where
  "add_spouse g person1_id person2_id user_id marriage_year divorce_year status marriage_type
       marriage_order =
     (let mt = (case marriage_type of None \<Rightarrow> cps ''civil'' | Some t \<Rightarrow> t);
          owned = owned_pairs g person1_id person2_id user_id;
          rows = (if owned \<noteq> [] then owned else legacy_pairs g person1_id person2_id user_id)
      in if rows = [] then (False, g)
         else
           (let g1 = foldl (spouse_row status marriage_order mt) g rows;
                g2 = set_between g1 person1_id person2_id ''marriage_year'' marriage_year;
                g3 = set_between g2 person1_id person2_id ''divorce_year'' divorce_year
            in (True, g3)))"

datatype SiblingType = FULL | HALF

fun sibling_value :: "SiblingType \<Rightarrow> pystr" where
  "sibling_value FULL = cps ''full''"
| "sibling_value HALF = cps ''half''"

definition sibling_row :: "pystr \<Rightarrow> graph \<Rightarrow> nat \<times> nat \<Rightarrow> graph" where
  "sibling_row t g ab =
     (case ab of (a, b) \<Rightarrow>
        merge_rel (merge_rel g a ''SIBLING'' [(''type'', S t)] b) b ''SIBLING'' [(''type'', S t)] a)"

definition sibling_pairs :: "graph \<Rightarrow> pystr \<Rightarrow> pystr \<Rightarrow> pystr \<Rightarrow> (nat \<times> nat) list" where
  "sibling_pairs g person1_id person2_id user_id =
     [(nid p1, nid p2).
        p1 \<leftarrow> match_nodes g Person ''id'' (S person1_id), props p1 ''user_id'' = Some (S user_id),
        p2 \<leftarrow> match_nodes g Person ''id'' (S person2_id), props p2 ''user_id'' = Some (S user_id)]"

definition add_sibling ::
  "graph \<Rightarrow> pystr \<Rightarrow> pystr \<Rightarrow> pystr \<Rightarrow> SiblingType \<Rightarrow> bool \<times> graph" where
  "add_sibling g person1_id person2_id user_id sibling_type =
     (let rows = sibling_pairs g person1_id person2_id user_id in
      (rows \<noteq> [], foldl (sibling_row (sibling_value sibling_type)) g rows))"

text \<open>
  \<open>create_relationship\<close>. The relationship type is a name the caller passes, spliced into
  the statement after normalisation; the names in use are ASCII, and \<open>upper\<close> is the ASCII
  upper case. A type that is not a plain identifier makes a statement the store rejects:
  the exception is caught and the result is \<open>False\<close>. The metadata is the list of items of
  the dictionary, in its order.
\<close>

definition relation_map :: "(string \<times> string) list" where
  "relation_map =
     [(''PARENT'', ''PARENT_OF''), (''CHILD'', ''CHILD_OF''), (''SPOUSE'', ''SPOUSE''),
      (''parent'', ''PARENT_OF''), (''child'', ''CHILD_OF''), (''spouse'', ''SPOUSE''),
      (''sibling'', ''SIBLING'')]"

definition char_in :: "char \<Rightarrow> char \<Rightarrow> char \<Rightarrow> bool" where
  "char_in lo hi c = ((of_char lo :: nat) \<le> of_char c \<and> (of_char c :: nat) \<le> of_char hi)"

definition upper :: "string \<Rightarrow> string" where
  "upper s =
     map (\<lambda>c. if char_in CHR ''a'' CHR ''z'' c then char_of (of_char c - (32::nat)) else c) s"

definition ident_char :: "char \<Rightarrow> bool" where
  "ident_char c =
     (char_in CHR ''a'' CHR ''z'' c \<or> char_in CHR ''A'' CHR ''Z'' c
      \<or> char_in CHR ''0'' CHR ''9'' c \<or> c = CHR ''_'')"

definition plain_identifier :: "string \<Rightarrow> bool" where
  "plain_identifier s =
     (case s of [] \<Rightarrow> False
      | c # cs \<Rightarrow> ident_char c \<and> \<not> char_in CHR ''0'' CHR ''9'' c \<and> list_all ident_char cs)"

definition metadata_keys :: "string list" where
  "metadata_keys = [''marriage_date'', ''divorce_date'', ''is_adopted'', ''type'']"

definition relationship_props :: "pystr \<Rightarrow> (string \<times> pval option) list \<Rightarrow> props \<Rightarrow> props" where
  "relationship_props now metadata m =
     foldl (\<lambda>m (k, v). set_prop m k v)
       (m(''created_at'' \<mapsto> T now, ''updated_at'' \<mapsto> T now))
       [(k, v) \<leftarrow> metadata. k \<in> set metadata_keys]"

definition relationship_row ::
  "pystr \<Rightarrow> string \<Rightarrow> (string \<times> pval option) list \<Rightarrow> graph \<Rightarrow> nat \<times> nat \<Rightarrow> graph" where
  "relationship_row now rel_type metadata g ab =
     (case ab of (a, b) \<Rightarrow>
        update_rels (merge_rel g a rel_type [] b) (is_rel a rel_type b)
          (relationship_props now metadata))"

definition create_relationship ::
  "graph \<Rightarrow> pystr \<Rightarrow> pystr \<Rightarrow> pystr \<Rightarrow> string \<Rightarrow> (string \<times> pval option) list option
     \<Rightarrow> bool \<times> graph" where
  "create_relationship g now from_id to_id relation_type metadata =
     (let rel_type = (case map_of relation_map relation_type of
                        Some t \<Rightarrow> t | None \<Rightarrow> upper relation_type);
          md = (case metadata of None \<Rightarrow> [] | Some items \<Rightarrow> items);
          rows = [(nid a, nid b). a \<leftarrow> match_nodes g Person ''id'' (S from_id),
                                  b \<leftarrow> match_nodes g Person ''id'' (S to_id)]
      in if \<not> plain_identifier rel_type then (False, g)
         else (rows \<noteq> [], foldl (relationship_row now rel_type md) g rows))"

section \<open>Neo4jDB: the sharing handshake\<close>

text \<open>\<open>create_invite\<close>: for the owner's user node, the invite and the \<open>CREATED_INVITE\<close>
  relationship to it. \<open>expires_at\<close> is the ISO text the endpoint computed.\<close>

definition invite_props :: "pystr \<Rightarrow> pystr \<Rightarrow> pystr \<Rightarrow> pystr option \<Rightarrow> props" where
  "invite_props now invite_id owner_id expires_at =
     props_of [(''id'', Some (S invite_id)), (''owner_id'', Some (S owner_id)),
               (''status'', Some (S (cps ''pending''))), (''created_at'', Some (T now)),
               (''expires_at'', map_option S expires_at)]"

definition create_invited :: "props \<Rightarrow> graph \<Rightarrow> node \<Rightarrow> graph" where
  "create_invited pr g u =
     add_rel (add_node g Invite pr) (nid u) ''CREATED_INVITE'' Map.empty (next_nid g)"

definition create_invite ::
  "graph \<Rightarrow> pystr \<Rightarrow> pystr \<Rightarrow> pystr \<Rightarrow> pystr option \<Rightarrow> props option \<times> graph" where
  "create_invite g now invite_id owner_id expires_at =
     (let owners = match_nodes g User ''id'' (S owner_id);
          pr = invite_props now invite_id owner_id expires_at
      in (if owners = [] then None else Some pr, foldl (create_invited pr) g owners))"

record accept_result =
  invite :: props
  owner_id :: "pval option"
  owner_public_key :: "pval option"
  recipient_public_key :: "pval option"

definition pending_invite :: "pystr \<Rightarrow> node \<Rightarrow> bool" where
  "pending_invite invite_id n =
     (label n = Invite \<and> props n ''id'' = Some (S invite_id)
      \<and> props n ''status'' = Some (S (cps ''pending'')))"

definition accepted_props :: "pystr \<Rightarrow> pystr \<Rightarrow> props \<Rightarrow> props" where
  "accepted_props now recipient_id m =
     m(''recipient_id'' \<mapsto> S recipient_id, ''status'' \<mapsto> S (cps ''accepted''),
       ''accepted_at'' \<mapsto> T now)"

text \<open>
  \<open>accept_invite\<close>. The statement matches the invite by its id and the status
  \<open>'pending'\<close> and the recipient by its id, sets the three properties, and only then matches
  the owner; it reads no other property of the invite.
\<close>

definition accept_invite ::
  "graph \<Rightarrow> pystr \<Rightarrow> pystr \<Rightarrow> pystr \<Rightarrow> accept_result option \<times> graph" where
  "accept_invite g now invite_id recipient_id =
     (let recipients = match_nodes g User ''id'' (S recipient_id);
          g' = (if recipients = [] then g
                else update_nodes g (pending_invite invite_id) (accepted_props now recipient_id));
          rows = [\<lparr> invite = accepted_props now recipient_id (props i),
                     owner_id = props owner ''id'',
                     owner_public_key = props owner ''public_key'',
                     recipient_public_key = props recipient ''public_key'' \<rparr>.
                    i \<leftarrow> filter (pending_invite invite_id) (nodes g),
                    recipient \<leftarrow> recipients,
                    owner \<leftarrow> nodes g,
                    label owner = User \<and> props owner ''id'' \<noteq> None
                    \<and> props owner ''id'' = accepted_props now recipient_id (props i) ''owner_id'']
      in (single rows, g'))"

text \<open>The endpoint \<open>POST /api/v1/share/accept\<close> of \<open>main.py\<close>; the response carries the
  invite id and the owner's id.\<close>

definition get_user :: "graph \<Rightarrow> pystr \<Rightarrow> props option" where
  "get_user g user_id = map_option props (single (match_nodes g User ''id'' (S user_id)))"

definition api_accept_invite ::
  "graph \<Rightarrow> pystr \<Rightarrow> pystr \<Rightarrow> pystr \<Rightarrow> (http_error + pystr \<times> pval option) \<times> graph" where
  "api_accept_invite g now invite_id user_id =
     (case get_user g user_id of
        None \<Rightarrow> (Inl (HTTPException 404 ''Recipient user not found''), g)
      | Some recipient \<Rightarrow>
          (case accept_invite g now invite_id user_id of
             (None, g') \<Rightarrow> (Inl (HTTPException 404 ''Invite not found or expired''), g')
           | (Some res, g') \<Rightarrow> (Inr (invite_id, owner_id res), g')))"

section \<open>Example graphs\<close>

text \<open>Two registered users, and a person record with no optional field.\<close>

definition user_node :: "nat \<Rightarrow> pystr \<Rightarrow> pystr \<Rightarrow> node" where
  "user_node n uid pk =
     \<lparr> nid = n, label = User, props = [''id'' \<mapsto> S uid, ''public_key'' \<mapsto> S pk] \<rparr>"

definition two_users :: graph where
  "two_users =
     \<lparr> nodes = [user_node 0 (cps ''alice'') (cps ''PK_A''), user_node 1 (cps ''bob'') (cps ''PK_B'')],
       rels = [], next_nid = 2 \<rparr>"

definition no_users :: graph where
  "no_users = \<lparr> nodes = [], rels = [], next_nid = 0 \<rparr>"

definition no_fields :: person_fields where
  "no_fields =
     \<lparr> name_blob = None, birth_date_blob = None, death_date_blob = None,
       birth_place_blob = None, death_place_blob = None, private_notes_blob = None,
       shared_notes_blob = None, gender = None, is_root = False,
       birth_year_approx = None, death_year_approx = None \<rparr>"

text \<open>Alice creates a person with a private note; the person is then shared with Bob by a
  \<open>SHARED_WITH\<close> relationship from Bob's user node, as the repository's test
  \<open>test_C6_private_notes_isolation\<close> sets it up.\<close>

definition shared_person :: graph where
  "shared_person =
     add_rel (snd (create_person two_users (cps ''2026-01-01T00:00:00'') (cps ''test_sec_notes'')
                     (cps ''alice'')
                     (no_fields\<lparr> private_notes_blob := Some (cps ''ENC_alice_secret_notes'') \<rparr>)))
       1 ''SHARED_WITH'' Map.empty 2"

text \<open>Alice creates an invite on 1 January 2020 that expires a day later.\<close>

definition old_invite :: graph where
  "old_invite =
     snd (create_invite two_users (cps ''2020-01-01T00:00:00'') (cps ''inv_1'') (cps ''alice'')
            (Some (cps ''2020-01-02T00:00:00'')))"

text \<open>A person created for a user id that has no user node.\<close>

definition orphan_person :: graph where
  "orphan_person =
     snd (create_person no_users (cps ''2026-01-01T00:00:00'') (cps ''p1'') (cps ''nobody'')
            no_fields)"

text \<open>Alice with two persons of her own, and the same with the first a parent of the
  second.\<close>

definition two_persons :: graph where
  "two_persons =
     snd (create_person
            (snd (create_person two_users (cps ''2026-01-01T00:00:00'') (cps ''p1'') (cps ''alice'')
                    no_fields))
            (cps ''2026-01-01T00:00:00'') (cps ''p2'') (cps ''alice'') no_fields)"


definition plain_person :: "nat \<Rightarrow> pystr \<Rightarrow> node" where
  "plain_person n person_id =
     \<lparr> nid = n, label = Person,
       props = [''id'' \<mapsto> S person_id, ''is_root'' \<mapsto> B False, ''is_deleted'' \<mapsto> B False,
                ''created_at'' \<mapsto> T (cps ''2026-01-01T00:00:00'')] \<rparr>"

text \<open>What the claims about relationships count: the relationships of one type from one
  node to another.\<close>

definition edges_from_to :: "graph \<Rightarrow> string \<Rightarrow> nat \<Rightarrow> nat \<Rightarrow> rel list" where
  "edges_from_to g t a b = filter (is_rel a t b) (rels g)"





text \<open>A matched pair: exactly one relationship of the type in each direction between the
  two nodes, both with metadata that satisfies \<open>Q\<close>.\<close>

definition paired :: "graph \<Rightarrow> string \<Rightarrow> nat \<Rightarrow> nat \<Rightarrow> (props \<Rightarrow> bool) \<Rightarrow> bool" where
  "paired g t a b Q =
     (length (edges_from_to g t a b) = 1 \<and> length (edges_from_to g t b a) = 1
      \<and> (\<forall>r \<in> set (edges_from_to g t a b @ edges_from_to g t b a). Q (rprops r)))"

definition spouse_meta :: "pystr \<Rightarrow> int \<Rightarrow> pystr \<Rightarrow> props \<Rightarrow> bool" where
  "spouse_meta status marriage_order marriage_type m =
     (m ''status'' = Some (S status) \<and> m ''marriage_order'' = Some (I marriage_order)
      \<and> m ''marriage_type'' = Some (S marriage_type))"

definition sibling_meta :: "pystr \<Rightarrow> props \<Rightarrow> bool" where
  "sibling_meta t m = (m ''type'' = Some (S t))"

text \<open>Two persons created for a user id that has no user node; they carry the id in
  their \<open>user_id\<close> property.\<close>

definition two_orphans :: graph where
  "two_orphans =
     snd (create_person orphan_person (cps ''2026-01-01T00:00:00'') (cps ''p2'') (cps ''nobody'')
            no_fields)"



definition legacy_person :: "nat \<Rightarrow> pystr \<Rightarrow> pystr \<Rightarrow> node" where
  "legacy_person n person_id user_id =
     \<lparr> nid = n, label = Person,
       props = [''user_id'' \<mapsto> S user_id, ''id'' \<mapsto> S person_id, ''is_root'' \<mapsto> B False,
                ''is_deleted'' \<mapsto> B False, ''created_at'' \<mapsto> T (cps ''2026-01-01T00:00:00'')] \<rparr>"

section \<open>Properties of the resolver\<close>

lemmas pats = pat_unknown_def pat_exact_def pat_exact_euro_def pat_approximate_def
  approx_marker_def pat_range_def pat_year_in_text_def lits_def d12_def date_sep_def spaces1_def

lemmas tabs = ascii_cyrillic_def is_digit_def digit_of_def space_cps_def lower_cp_def

lemmas res = resolve_def resolve_exact_def resolve_exact_euro_def resolve_approximate_def
  resolve_range_def resolve_in_text_def strip_def cps_def re_match_def int_group_def group_def
  py_int_def approximate_date_def exact_date_def unknown_date_def range_date_def


subsection \<open>Every captured group is a year of four digits\<close>

lemma rmatch_d4:
  "rmatch U d4 s caps =
     (if 4 \<le> length s \<and> list_all (is_digit U) (take 4 s) then [(drop 4 s, caps)] else [])"
proof (cases s)
  case Nil then show ?thesis by (simp add: d4_def)
next
  case (Cons a s1)
  note c1 = this
  show ?thesis
  proof (cases s1)
    case Nil with c1 show ?thesis by (simp add: d4_def)
  next
    case (Cons b s2)
    note c2 = this
    show ?thesis
    proof (cases s2)
      case Nil with c2 c1 show ?thesis by (simp add: d4_def)
    next
      case (Cons c s3)
      note c3 = this
      show ?thesis
      proof (cases s3)
        case Nil with c3 c2 c1 show ?thesis by (simp add: d4_def)
      next
        case (Cons d s4)
        with c3 c2 c1 show ?thesis by (simp add: d4_def)
      qed
    qed
  qed
qed

lemma rmatch_star_caps: "(s', c') \<in> set (rmatch U (Star cl) s c) \<Longrightarrow> c' = c"
  by (induction s) (auto split: if_splits)

lemma rmatch_caps:
  "year_groups r \<Longrightarrow> (s', c') \<in> set (rmatch U r s c) \<Longrightarrow>
     \<exists>g. c' = c @ g \<and> length g = gcount r \<and> list_all (year_str U) g"
proof (induction r arbitrary: s c s' c')
  case (Chr cl)
  then show ?case by (cases s) (auto split: if_splits)
next
  case (Seq a b)
  from Seq.prems(2) obtain s1 c1 where
    m1: "(s1, c1) \<in> set (rmatch U a s c)" and m2: "(s', c') \<in> set (rmatch U b s1 c1)"
    by auto
  from Seq.prems(1) have ya: "year_groups a" and yb: "year_groups b" by simp_all
  from Seq.IH(1) [OF ya m1] obtain g1 where
    g1: "c1 = c @ g1" "length g1 = gcount a" "list_all (year_str U) g1" by blast
  from Seq.IH(2) [OF yb m2] obtain g2 where
    g2: "c' = c1 @ g2" "length g2 = gcount b" "list_all (year_str U) g2" by blast
  show ?case
    by (rule exI [of _ "g1 @ g2"]) (simp add: g1 g2)
next
  case (Alt a b)
  then show ?case by fastforce
next
  case (Opt a)
  then show ?case by fastforce
next
  case (Star cl)
  then show ?case by (auto dest: rmatch_star_caps)
next
  case (Group a)
  then show ?case
    by (auto simp: rmatch_d4 year_str_def split: if_splits)
next
  case Eol
  then show ?case by (auto split: if_splits)
qed

lemma re_match_caps:
  assumes "year_groups r" and "re_match U r s = Some caps"
  shows "length caps = gcount r \<and> list_all (year_str U) caps"
proof -
  from assms(2) obtain s' rest where "rmatch U r s [] = (s', caps) # rest"
    by (auto simp: re_match_def split: list.splits)
  then have "(s', caps) \<in> set (rmatch U r s [])" by simp
  from rmatch_caps [OF assms(1) this] show ?thesis by auto
qed

lemma re_search_caps:
  assumes "year_groups r" and "re_search U r s = Some caps"
  shows "length caps = gcount r \<and> list_all (year_str U) caps"
  using assms(2)
proof (induction s)
  case Nil
  then show ?case using re_match_caps [OF assms(1)] by simp
next
  case (Cons t ts)
  then show ?case using re_match_caps [OF assms(1)] by (auto split: option.splits)
qed

lemma py_int_year_str: "year_str U g \<Longrightarrow> \<exists>y. py_int U g = Inr y"
  by (auto simp: year_str_def py_int_def)

lemma int_group_total:
  assumes "list_all (year_str U) caps" and "1 \<le> i" and "i \<le> length caps"
  shows "\<exists>y. int_group U caps i = Inr y"
proof -
  from assms have "year_str U (caps ! (i - 1))"
    by (simp add: list_all_length)
  from py_int_year_str [OF this] assms(2,3) show ?thesis
    by (auto simp: int_group_def group_def)
qed

lemma year_groups_pats:
  "year_groups pat_exact" "gcount pat_exact = 1"
  "year_groups pat_exact_euro" "gcount pat_exact_euro = 1"
  "year_groups pat_approximate" "gcount pat_approximate = 1"
  "year_groups pat_range" "gcount pat_range = 2"
  "year_groups pat_year_in_text" "gcount pat_year_in_text = 1"
  by (simp_all add: pats)

subsection \<open>Integers that \<open>str\<close> accepts\<close>

lemma str_limit_ge: "(10000::int) \<le> 10 ^ int_max_str_digits"
proof -
  have "(10::int) ^ 4 \<le> 10 ^ int_max_str_digits"
    by (rule power_increasing) (simp_all add: int_max_str_digits_def)
  then show ?thesis by simp
qed

lemma str_of_int_small:
  "\<bar>i\<bar> < 10000 \<Longrightarrow>
     str_of_int i = Inr (if i < 0 then 45 # digits_of_nat (nat (- i)) else digits_of_nat (nat i))"
  using str_limit_ge by (simp add: str_of_int_def)

lemma str_of_int_returns: "\<bar>i\<bar> < 10 ^ int_max_str_digits \<Longrightarrow> \<exists>s. str_of_int i = Inr s"
  by (simp add: str_of_int_def)

lemma str_of_int_raises: "10 ^ int_max_str_digits \<le> \<bar>i\<bar> \<Longrightarrow> str_of_int i = Inl ValueError"
  by (simp add: str_of_int_def)

text \<open>A captured year is below ten thousand.\<close>

lemma digit_of_less: "is_digit U c \<Longrightarrow> digit_of U c < 10"
  by (simp add: is_digit_def digit_of_def split: option.splits)

lemma py_int_year_bound:
  assumes "year_str U g" and "py_int U g = Inr y"
  shows "0 \<le> y \<and> y < 10000"
proof -
  from assms(1) obtain a b c d where g: "g = [a, b, c, d]"
    by (auto simp: year_str_def length_Suc_conv numeral_eq_Suc)
  from assms(1) g have "digit_of U a < 10" "digit_of U b < 10" "digit_of U c < 10"
      "digit_of U d < 10"
    by (simp_all add: year_str_def digit_of_less)
  with assms(2) g show ?thesis
    by (auto simp: py_int_def split: if_splits)
qed

lemma int_group_bound:
  assumes "list_all (year_str U) caps" and "int_group U caps i = Inr y"
  shows "0 \<le> y \<and> y < 10000"
proof -
  from assms(2) have i: "1 \<le> i" "i \<le> length caps" and y: "py_int U (caps ! (i - 1)) = Inr y"
    by (auto simp: int_group_def group_def split: if_splits)
  from assms(1) i have "year_str U (caps ! (i - 1))"
    by (simp add: list_all_length)
  from py_int_year_bound [OF this y] show ?thesis .
qed

subsection \<open>No step of the chain raises\<close>

lemma resolve_in_text_total: "\<exists>r. resolve_in_text U s = Inr r"
proof (cases "re_search U pat_year_in_text s")
  case None
  then show ?thesis by (simp add: resolve_in_text_def)
next
  case (Some caps)
  from re_search_caps [OF year_groups_pats(9) Some]
  have "\<exists>y. int_group U caps 1 = Inr y"
    by (intro int_group_total) (simp_all add: year_groups_pats)
  with Some show ?thesis by (auto simp: resolve_in_text_def)
qed

lemma resolve_range_total: "\<exists>r. resolve_range U s = Inr r"
proof (cases "re_match U pat_range s")
  case None
  then show ?thesis using resolve_in_text_total by (simp add: resolve_range_def)
next
  case (Some caps)
  from re_match_caps [OF year_groups_pats(7) Some]
  have "\<exists>y. int_group U caps 1 = Inr y" and "\<exists>y. int_group U caps 2 = Inr y"
    by (auto intro!: int_group_total simp: year_groups_pats)
  with Some show ?thesis by (auto simp: resolve_range_def)
qed

lemma resolve_approximate_total: "\<exists>r. resolve_approximate U s = Inr r"
proof (cases "re_match U pat_approximate s")
  case None
  then show ?thesis using resolve_range_total by (simp add: resolve_approximate_def)
next
  case (Some caps)
  from re_match_caps [OF year_groups_pats(5) Some]
  have "\<exists>y. int_group U caps 1 = Inr y"
    by (auto intro!: int_group_total simp: year_groups_pats)
  with Some show ?thesis by (auto simp: resolve_approximate_def)
qed

lemma resolve_exact_euro_total: "\<exists>r. resolve_exact_euro U s = Inr r"
proof (cases "re_match U pat_exact_euro s")
  case None
  then show ?thesis using resolve_approximate_total by (simp add: resolve_exact_euro_def)
next
  case (Some caps)
  from re_match_caps [OF year_groups_pats(3) Some]
  have "\<exists>y. int_group U caps 1 = Inr y"
    by (auto intro!: int_group_total simp: year_groups_pats)
  with Some show ?thesis by (auto simp: resolve_exact_euro_def)
qed

lemma resolve_exact_total: "\<exists>r. resolve_exact U s = Inr r"
proof (cases "re_match U pat_exact s")
  case None
  then show ?thesis using resolve_exact_euro_total by (simp add: resolve_exact_def)
next
  case (Some caps)
  from re_match_caps [OF year_groups_pats(1) Some]
  have "\<exists>y. int_group U caps 1 = Inr y"
    by (auto intro!: int_group_total simp: year_groups_pats)
  with Some show ?thesis by (auto simp: resolve_exact_def)
qed

lemma resolve_returns:
  assumes "\<forall>n. x = PyInt n \<longrightarrow> \<bar>n\<bar> < 10 ^ int_max_str_digits"
  shows "\<exists>r. resolve U x = Inr r"
proof (cases x)
  case PyNone
  then show ?thesis by (simp add: resolve_def)
next
  case (PyInt n)
  with assms have "\<bar>n\<bar> < 10 ^ int_max_str_digits" by simp
  from str_of_int_returns [OF this] PyInt show ?thesis by (auto simp: resolve_def)
next
  case (PyStr s)
  then show ?thesis using resolve_exact_total by (auto simp: resolve_def Let_def)
qed

lemma resolve_in_text_unknown:
  "\<not> year_in_text_form U s \<Longrightarrow> resolve_in_text U s = Inr (unknown_date s)"
  using resolve_in_text_total [of U s]
  by (auto simp: year_in_text_form_def resolve_in_text_def
           split: option.splits sum.splits if_splits)

lemma resolve_unrecognized:
  "\<not> recognized_form U x \<Longrightarrow> \<exists>s. x = PyStr s \<and> resolve U x = Inr (unknown_date (strip U s))"
  by (cases x)
     (auto simp: recognized_form_def Let_def resolve_def resolve_exact_def
        resolve_exact_euro_def resolve_approximate_def resolve_range_def resolve_in_text_unknown)

subsection \<open>The year of a resolved text\<close>

lemma resolve_in_text_year:
  assumes "resolve_in_text U s = Inr r" and "year r = Some y"
  shows "0 \<le> y \<and> y < 10000"
  using assms
  by (auto simp: resolve_in_text_def approximate_date_def unknown_date_def
           split: option.splits sum.splits if_splits)

lemma resolve_range_year:
  assumes "resolve_range U s = Inr r" and "year r = Some y"
  shows "0 \<le> y \<and> y < 10000"
proof (cases "re_match U pat_range s")
  case None
  with assms show ?thesis using resolve_in_text_year by (simp add: resolve_range_def)
next
  case (Some caps)
  with assms obtain a b where
    ab: "int_group U caps 1 = Inr a" "int_group U caps 2 = Inr b" and y: "y = (a + b) div 2"
    by (auto simp: resolve_range_def range_date_def split: sum.splits)
  note caps = re_match_caps [OF year_groups_pats(7) Some]
  from caps have "list_all (year_str U) caps" by simp
  from int_group_bound [OF this ab(1)] int_group_bound [OF this ab(2)] y show ?thesis
    by presburger
qed

lemma resolve_approximate_year:
  assumes "resolve_approximate U s = Inr r" and "year r = Some y"
  shows "0 \<le> y \<and> y < 10000"
proof (cases "re_match U pat_approximate s")
  case None
  with assms show ?thesis using resolve_range_year by (simp add: resolve_approximate_def)
next
  case (Some caps)
  with assms have y: "int_group U caps 1 = Inr y"
    by (auto simp: resolve_approximate_def approximate_date_def split: sum.splits)
  from re_match_caps [OF year_groups_pats(5) Some] have "list_all (year_str U) caps" by simp
  from int_group_bound [OF this y] show ?thesis .
qed

lemma resolve_exact_euro_year:
  assumes "resolve_exact_euro U s = Inr r" and "year r = Some y"
  shows "0 \<le> y \<and> y < 10000"
proof (cases "re_match U pat_exact_euro s")
  case None
  with assms show ?thesis using resolve_approximate_year by (simp add: resolve_exact_euro_def)
next
  case (Some caps)
  with assms have y: "int_group U caps 1 = Inr y"
    by (auto simp: resolve_exact_euro_def exact_date_def split: sum.splits)
  from re_match_caps [OF year_groups_pats(3) Some] have "list_all (year_str U) caps" by simp
  from int_group_bound [OF this y] show ?thesis .
qed

lemma resolve_exact_year:
  assumes "resolve_exact U s = Inr r" and "year r = Some y"
  shows "0 \<le> y \<and> y < 10000"
proof (cases "re_match U pat_exact s")
  case None
  with assms show ?thesis using resolve_exact_euro_year by (simp add: resolve_exact_def)
next
  case (Some caps)
  with assms have y: "int_group U caps 1 = Inr y"
    by (auto simp: resolve_exact_def exact_date_def split: sum.splits)
  from re_match_caps [OF year_groups_pats(1) Some] have "list_all (year_str U) caps" by simp
  from int_group_bound [OF this y] show ?thesis .
qed

lemma resolve_text_year:
  assumes "resolve U (PyStr s) = Inr r" and "year r = Some y"
  shows "0 \<le> y \<and> y < 10000"
  using assms resolve_exact_year
  by (auto simp: resolve_def Let_def unknown_date_def split: if_splits)

text \<open>
  C9, as the claim states it, fails: \<open>resolve\<close> computes \<open>str(date_input)\<close> for an integer,
  and for the integer \<open>10 ^ 4300\<close>, which has 4301 digits, that call raises \<open>ValueError\<close>.
\<close>

theorem resolve_large_int_counterexample:
  "int_max_str_digits = 4300
   \<and> resolve ascii_cyrillic (PyInt (10 ^ int_max_str_digits)) = Inl ValueError"
proof
  show "int_max_str_digits = 4300"
    by (simp add: int_max_str_digits_def)
  show "resolve ascii_cyrillic (PyInt (10 ^ int_max_str_digits)) = Inl ValueError"
    by (simp add: resolve_def str_of_int_def)
qed

text \<open>
  C9, amended. \<open>resolve\<close> returns a \<open>ResolvedDate\<close> and does not raise for null, for every
  string, and for every integer below \<open>10 ^ 4300\<close> in absolute value; an input that matches
  none of the recognized forms resolves to confidence \<open>unknown\<close> with no year. For an
  integer of more digits it raises \<open>ValueError\<close>.
\<close>

theorem resolve_total:
  "((\<forall>n. x = PyInt n \<longrightarrow> \<bar>n\<bar> < 10 ^ int_max_str_digits) \<longrightarrow>
      (\<exists>r. resolve U x = Inr r \<and>
           (\<not> recognized_form U x \<longrightarrow> year r = None \<and> confidence r = Unknown)))
   \<and> ((\<exists>n. x = PyInt n \<and> 10 ^ int_max_str_digits \<le> \<bar>n\<bar>) \<longrightarrow> resolve U x = Inl ValueError)"
proof (intro conjI impI)
  assume small: "\<forall>n. x = PyInt n \<longrightarrow> \<bar>n\<bar> < 10 ^ int_max_str_digits"
  show "\<exists>r. resolve U x = Inr r \<and>
           (\<not> recognized_form U x \<longrightarrow> year r = None \<and> confidence r = Unknown)"
  proof (cases "recognized_form U x")
    case True
    then show ?thesis using resolve_returns [OF small, of U] by auto
  next
    case False
    from resolve_unrecognized [OF this] show ?thesis by (auto simp: unknown_date_def)
  qed
next
  assume "\<exists>n. x = PyInt n \<and> 10 ^ int_max_str_digits \<le> \<bar>n\<bar>"
  then show "resolve U x = Inl ValueError"
    by (auto simp: resolve_def str_of_int_raises)
qed

theorem resolve_total_witness:
  "\<not> recognized_form ascii_cyrillic (PyStr (cps ''abc''))
   \<and> resolve ascii_cyrillic (PyStr (cps ''abc'')) = Inr (unknown_date (cps ''abc''))
   \<and> \<bar>1900::int\<bar> < 10 ^ int_max_str_digits
   \<and> resolve ascii_cyrillic (PyInt 1900) = Inr (exact_date 1900 (cps ''1900''))
   \<and> resolve ascii_cyrillic (PyInt (- (10 ^ int_max_str_digits))) = Inl ValueError"
proof -
  have small: "\<bar>1900::int\<bar> < 10 ^ int_max_str_digits"
    using str_limit_ge by simp
  have h1: "\<not> recognized_form ascii_cyrillic (PyStr (cps ''abc''))
            \<and> resolve ascii_cyrillic (PyStr (cps ''abc'')) = Inr (unknown_date (cps ''abc''))"
    using resolve_total [of "PyStr (cps ''abc'')" ascii_cyrillic]
    by (simp add: recognized_form_def year_in_text_form_def pats d4_def tabs res)
  have h2: "resolve ascii_cyrillic (PyInt 1900) = Inr (exact_date 1900 (cps ''1900''))"
    using resolve_total [of "PyInt 1900" ascii_cyrillic] small
    by (simp add: res str_of_int_small digits_of_nat.simps)
  have h3: "resolve ascii_cyrillic (PyInt (- (10 ^ int_max_str_digits))) = Inl ValueError"
    using resolve_total [of "PyInt (- (10 ^ int_max_str_digits))" ascii_cyrillic]
    by simp
  from small h1 h2 h3 show ?thesis by simp
qed

text \<open>
  C10, as the claim states it, fails: \<open>"~1900"\<close> resolves to the year 1900 as an
  approximate date that keeps its text, and the number 1900 resolves to an exact date.
\<close>

theorem resolve_idempotent_counterexample:
  "resolve ascii_cyrillic (PyStr (cps ''~1900'')) = Inr (approximate_date 1900 (cps ''~1900''))
   \<and> resolve ascii_cyrillic (PyInt 1900) = Inr (exact_date 1900 (cps ''1900''))
   \<and> exact_date 1900 (cps ''1900'') \<noteq> approximate_date 1900 (cps ''~1900'')"
  by (simp add: pats d4_def tabs res str_of_int_small digits_of_nat.simps)

text \<open>
  C10, amended. For every input whose resolution has a year, resolving that year gives a
  date with the same year, and gives the same \<open>ResolvedDate\<close> when the input is itself an
  integer.
\<close>

theorem resolve_year_idempotent:
  assumes "resolve U x = Inr r" and "year r = Some y"
  shows "\<exists>r'. resolve U (PyInt y) = Inr r' \<and> year r' = year r \<and> (\<forall>n. x = PyInt n \<longrightarrow> r' = r)"
proof (cases x)
  case PyNone
  with assms have False by (auto simp: resolve_def unknown_date_def)
  then show ?thesis ..
next
  case (PyInt n)
  with assms show ?thesis
    by (auto simp: resolve_def exact_date_def split: sum.splits)
next
  case (PyStr s)
  from resolve_text_year [OF assms(1) [unfolded PyStr] assms(2)] have "\<bar>y\<bar> < 10000"
    by simp
  from str_of_int_small [OF this] PyStr assms(2) show ?thesis
    by (simp add: resolve_def exact_date_def)
qed

theorem resolve_year_idempotent_witness:
  "resolve ascii_cyrillic (PyStr (cps ''1910..1920'')) = Inr (range_date 1910 1920 (cps ''1910..1920''))
   \<and> year (range_date 1910 1920 (cps ''1910..1920'')) = Some 1915
   \<and> resolve ascii_cyrillic (PyInt 1915) = Inr (exact_date 1915 (cps ''1915''))
   \<and> year (exact_date 1915 (cps ''1915'')) = Some 1915"
proof -
  have h1: "resolve ascii_cyrillic (PyStr (cps ''1910..1920''))
              = Inr (range_date 1910 1920 (cps ''1910..1920''))"
    by (simp add: pats d4_def tabs res)
  have h2: "year (range_date 1910 1920 (cps ''1910..1920'')) = Some 1915"
    by (simp add: range_date_def)
  from resolve_year_idempotent [OF h1 h2] h1 h2 show ?thesis
    by (simp add: res str_of_int_small digits_of_nat.simps)
qed

section \<open>Properties of the validators\<close>







text \<open>The validators resolve every date they are given before they look at any of them:
  a death year that \<open>resolve\<close> does not accept makes \<open>validate_parent_child_dates\<close> raise,
  although the parent's birth year is unknown.\<close>

lemma validate_parent_child_raises:
  "validate_parent_child_dates ascii_cyrillic (PyStr (cps ''?'')) (PyInt (10 ^ int_max_str_digits))
     (PyInt 1930) None = Inl ValueError"
  by (simp add: validate_parent_child_dates_def resolve_year_def pats tabs res str_of_int_raises)



section \<open>Properties of the graph operations\<close>

lemma cps_eq_iff [simp]: "cps a = cps b \<longleftrightarrow> a = b"
  by (simp add: cps_def inj_map_eq_map [OF inj_of_char])

lemma cps_Nil [simp]: "cps a = [] \<longleftrightarrow> a = []"
  by (simp add: cps_def)

lemmas gdefs = match_nodes_def has_rel_def is_rel_def single_def set_prop_def props_of_def
  add_node_def add_rel_def Let_def

lemmas exdefs = two_users_def user_node_def no_fields_def no_users_def

lemma shared_person_eq:
  "shared_person =
     \<lparr> nodes = [user_node 0 (cps ''alice'') (cps ''PK_A''), user_node 1 (cps ''bob'') (cps ''PK_B''),
               \<lparr> nid = 2, label = Person,
                 props = [''id'' \<mapsto> S (cps ''test_sec_notes''),
                          ''private_notes_blob'' \<mapsto> S (cps ''ENC_alice_secret_notes''),
                          ''is_root'' \<mapsto> B False, ''is_deleted'' \<mapsto> B False,
                          ''created_at'' \<mapsto> T (cps ''2026-01-01T00:00:00'')] \<rparr>],
       rels = [\<lparr> src = 0, rtype = ''OWNS'', dst = 2, rprops = Map.empty \<rparr>,
               \<lparr> src = 1, rtype = ''SHARED_WITH'', dst = 2, rprops = Map.empty \<rparr>],
       next_nid = 3 \<rparr>"
  by (simp add: shared_person_def create_person_def person_props_def create_owned_def gdefs exdefs)

text \<open>
  C1. The claim is that a viewer who only holds a \<open>SHARED_WITH\<close> relationship never gets
  the private notes. \<open>get_person\<close> returns the node's dictionary as it is: Bob, a guest of
  Alice's person, reads her private notes.
\<close>

theorem get_person_guest_private_notes:
  "\<exists>person. get_person shared_person (cps ''test_sec_notes'') (cps ''bob'') = Some person
      \<and> person ''is_owner'' = Some (B False)
      \<and> person ''private_notes_blob'' = Some (S (cps ''ENC_alice_secret_notes''))"
  by (simp add: shared_person_eq get_person_def get_person_rows_def gdefs user_node_def)

lemma old_invite_eq:
  "old_invite =
     \<lparr> nodes = [user_node 0 (cps ''alice'') (cps ''PK_A''), user_node 1 (cps ''bob'') (cps ''PK_B''),
               \<lparr> nid = 2, label = Invite,
                 props = [''id'' \<mapsto> S (cps ''inv_1''), ''owner_id'' \<mapsto> S (cps ''alice''),
                          ''status'' \<mapsto> S (cps ''pending''),
                          ''created_at'' \<mapsto> T (cps ''2020-01-01T00:00:00''),
                          ''expires_at'' \<mapsto> S (cps ''2020-01-02T00:00:00'')] \<rparr>],
       rels = [\<lparr> src = 0, rtype = ''CREATED_INVITE'', dst = 2, rprops = Map.empty \<rparr>],
       next_nid = 3 \<rparr>"
  by (simp add: old_invite_def create_invite_def invite_props_def create_invited_def gdefs exdefs)

text \<open>
  C2. The claim is that an invite whose expiry time has passed is rejected and left
  unchanged. \<open>accept_invite\<close> does not read \<open>expires_at\<close>: in November 2026 Bob accepts the
  invite that expired in January 2020, and the endpoint answers with success.
\<close>

theorem accept_invite_after_expiry:
  "\<exists>res g'. accept_invite old_invite (cps ''2026-11-04T12:00:00'') (cps ''inv_1'') (cps ''bob'')
               = (Some res, g')
      \<and> invite res ''expires_at'' = Some (S (cps ''2020-01-02T00:00:00''))
      \<and> invite res ''status'' = Some (S (cps ''accepted''))
      \<and> invite res ''recipient_id'' = Some (S (cps ''bob''))
      \<and> owner_public_key res = Some (S (cps ''PK_A''))
      \<and> recipient_public_key res = Some (S (cps ''PK_B''))
      \<and> map (\<lambda>n. props n ''status'') (nodes g') = [None, None, Some (S (cps ''accepted''))]
      \<and> fst (api_accept_invite old_invite (cps ''2026-11-04T12:00:00'') (cps ''inv_1'') (cps ''bob''))
          = Inr (cps ''inv_1'', Some (S (cps ''alice'')))"
  by (simp add: old_invite_eq accept_invite_def api_accept_invite_def get_user_def pending_invite_def
        accepted_props_def update_nodes_def gdefs user_node_def)

text \<open>
  C3, as the claim states it, fails: for a user id without a user node \<open>create_person\<close>
  does not fail; it returns the person and the graph has a new \<open>Person\<close> node.
\<close>

theorem create_person_missing_owner_counterexample:
  "fst (create_person no_users (cps ''2026-01-01T00:00:00'') (cps ''p1'') (cps ''nobody'') no_fields)
     \<noteq> None
   \<and> map label (nodes (snd (create_person no_users (cps ''2026-01-01T00:00:00'') (cps ''p1'')
                              (cps ''nobody'') no_fields))) = [Person]
   \<and> rels (snd (create_person no_users (cps ''2026-01-01T00:00:00'') (cps ''p1'')
                   (cps ''nobody'') no_fields)) = []"
  by (simp add: create_person_def gdefs exdefs)

lemma person_props_id:
  "props_of (person_props now person_id f) ''id'' = Some (S person_id)"
  "props_of (person_props now person_id f) ''user_id'' = None"
  "props_of ((''user_id'', Some (S user_id)) # person_props now person_id f) ''id''
     = Some (S person_id)"
  "props_of ((''user_id'', Some (S user_id)) # person_props now person_id f) ''user_id''
     = Some (S user_id)"
  by (simp_all add: props_of_def person_props_def set_prop_def)

text \<open>
  C3, amended. When no user node has the owner's id, \<open>create_person\<close> creates the
  \<open>Person\<close> node with the owner's id in its \<open>user_id\<close> property and no relationship, and
  returns it. When exactly one user node has the id, the \<open>Person\<close> node and the \<open>OWNS\<close>
  relationship from that user to it are created together, by the one statement.
\<close>

theorem create_person_owner:
  "(match_nodes g User ''id'' (S user_id) = [] \<longrightarrow>
      (\<exists>pr. create_person g now person_id user_id f
               = (Some pr,
                  g\<lparr> nodes := nodes g @ [\<lparr> nid = next_nid g, label = Person, props = pr \<rparr>],
                     next_nid := Suc (next_nid g) \<rparr>)
            \<and> pr ''id'' = Some (S person_id) \<and> pr ''user_id'' = Some (S user_id)))
   \<and> (match_nodes g User ''id'' (S user_id) = [u] \<longrightarrow>
      (\<exists>pr. create_person g now person_id user_id f
               = (Some (pr(''owner_id'' \<mapsto> S user_id)),
                  g\<lparr> nodes := nodes g @ [\<lparr> nid = next_nid g, label = Person, props = pr \<rparr>],
                     rels := rels g @ [\<lparr> src = nid u, rtype = ''OWNS'', dst = next_nid g,
                                         rprops = Map.empty \<rparr>],
                     next_nid := Suc (next_nid g) \<rparr>)
            \<and> pr ''id'' = Some (S person_id) \<and> pr ''user_id'' = None))"
proof (intro conjI impI)
  assume "match_nodes g User ''id'' (S user_id) = []"
  then show "\<exists>pr. create_person g now person_id user_id f
               = (Some pr,
                  g\<lparr> nodes := nodes g @ [\<lparr> nid = next_nid g, label = Person, props = pr \<rparr>],
                     next_nid := Suc (next_nid g) \<rparr>)
            \<and> pr ''id'' = Some (S person_id) \<and> pr ''user_id'' = Some (S user_id)"
    by (intro exI [of _ "props_of ((''user_id'', Some (S user_id)) # person_props now person_id f)"])
       (simp add: create_person_def add_node_def person_props_id Let_def)
next
  assume "match_nodes g User ''id'' (S user_id) = [u]"
  then show "\<exists>pr. create_person g now person_id user_id f
               = (Some (pr(''owner_id'' \<mapsto> S user_id)),
                  g\<lparr> nodes := nodes g @ [\<lparr> nid = next_nid g, label = Person, props = pr \<rparr>],
                     rels := rels g @ [\<lparr> src = nid u, rtype = ''OWNS'', dst = next_nid g,
                                         rprops = Map.empty \<rparr>],
                     next_nid := Suc (next_nid g) \<rparr>)
            \<and> pr ''id'' = Some (S person_id) \<and> pr ''user_id'' = None"
    by (intro exI [of _ "props_of (person_props now person_id f)"])
       (simp add: create_person_def create_owned_def add_node_def add_rel_def person_props_id
          Let_def)
qed

theorem create_person_owner_witness:
  "match_nodes no_users User ''id'' (S (cps ''nobody'')) = []
   \<and> match_nodes two_users User ''id'' (S (cps ''alice'')) = [user_node 0 (cps ''alice'') (cps ''PK_A'')]
   \<and> map label (nodes (snd (create_person no_users (cps ''t'') (cps ''p1'') (cps ''nobody'') no_fields)))
       = [Person]
   \<and> rels (snd (create_person no_users (cps ''t'') (cps ''p1'') (cps ''nobody'') no_fields)) = []
   \<and> map label (nodes (snd (create_person two_users (cps ''t'') (cps ''p1'') (cps ''alice'') no_fields)))
       = [User, User, Person]
   \<and> rels (snd (create_person two_users (cps ''t'') (cps ''p1'') (cps ''alice'') no_fields))
       = [\<lparr> src = 0, rtype = ''OWNS'', dst = 2, rprops = Map.empty \<rparr>]"
proof -
  have h1: "match_nodes no_users User ''id'' (S (cps ''nobody'')) = []"
    by (simp add: gdefs exdefs)
  have h2: "match_nodes two_users User ''id'' (S (cps ''alice''))
              = [user_node 0 (cps ''alice'') (cps ''PK_A'')]"
    by (simp add: gdefs exdefs)
  from create_person_owner [where g = no_users and user_id = "cps ''nobody''" and now = "cps ''t''"
          and person_id = "cps ''p1''" and f = no_fields]
       create_person_owner [where g = two_users and user_id = "cps ''alice''" and now = "cps ''t''"
          and person_id = "cps ''p1''" and f = no_fields
          and u = "user_node 0 (cps ''alice'') (cps ''PK_A'')"]
       h1 h2
  show ?thesis
    by (auto simp: exdefs)
qed

subsection \<open>Deleting a person\<close>



















lemma two_persons_eq:
  "two_persons =
     \<lparr> nodes = [user_node 0 (cps ''alice'') (cps ''PK_A''), user_node 1 (cps ''bob'') (cps ''PK_B''),
               plain_person 2 (cps ''p1''), plain_person 3 (cps ''p2'')],
       rels = [\<lparr> src = 0, rtype = ''OWNS'', dst = 2, rprops = Map.empty \<rparr>,
               \<lparr> src = 0, rtype = ''OWNS'', dst = 3, rprops = Map.empty \<rparr>],
       next_nid = 4 \<rparr>"
  by (simp add: two_persons_def create_person_def person_props_def create_owned_def gdefs exdefs
        plain_person_def)



lemma orphan_person_eq:
  "orphan_person =
     \<lparr> nodes = [legacy_person 0 (cps ''p1'') (cps ''nobody'')], rels = [], next_nid = 1 \<rparr>"
  by (simp add: orphan_person_def create_person_def person_props_def gdefs exdefs
        legacy_person_def)

lemma two_orphans_eq:
  "two_orphans =
     \<lparr> nodes = [legacy_person 0 (cps ''p1'') (cps ''nobody''),
               legacy_person 1 (cps ''p2'') (cps ''nobody'')],
       rels = [], next_nid = 2 \<rparr>"
  by (simp add: two_orphans_def orphan_person_eq create_person_def person_props_def gdefs exdefs
        legacy_person_def)







subsection \<open>Relationships in pairs\<close>

lemma is_rel_rprops [simp]: "is_rel a t b (r\<lparr> rprops := m \<rparr>) = is_rel a t b r"
  by (simp add: is_rel_def)

lemma nodes_merge_rel [simp]: "nodes (merge_rel g a t ps b) = nodes g"
  by (simp add: merge_rel_def add_rel_def)

lemma nodes_update_rels [simp]: "nodes (update_rels g P f) = nodes g"
  by (simp add: update_rels_def)

lemma edges_update_rels:
  "edges_from_to (update_rels g P f) t a b
     = map (\<lambda>r. if P r then r\<lparr> rprops := f (rprops r) \<rparr> else r) (edges_from_to g t a b)"
proof -
  have "filter (is_rel a t b) (map (\<lambda>r. if P r then r\<lparr> rprops := f (rprops r) \<rparr> else r) xs)
          = map (\<lambda>r. if P r then r\<lparr> rprops := f (rprops r) \<rparr> else r) (filter (is_rel a t b) xs)"
    for xs
    by (induction xs) auto
  then show ?thesis
    by (simp add: edges_from_to_def update_rels_def)
qed

lemma update_rels_paired:
  assumes "\<And>m. Q m \<Longrightarrow> Q (f m)" and "paired g t a b Q"
  shows "paired (update_rels g P f) t a b Q"
  using assms by (auto simp: paired_def edges_update_rels)

lemma paired_at_most_one:
  "paired g t a b Q \<Longrightarrow>
     length (edges_from_to g t a b) \<le> 1 \<and> length (edges_from_to g t b a) \<le> 1"
  by (simp add: paired_def)

lemma merge_rel_rels:
  assumes "\<forall>r \<in> set (rels g). is_rel a t b r \<longrightarrow> merge_match a t ps b r"
  shows "rels (merge_rel g a t ps b) =
           rels g @ (if edges_from_to g t a b = []
                     then [\<lparr> src = a, rtype = t, dst = b, rprops = map_of ps \<rparr>] else [])"
proof -
  have "list_ex (merge_match a t ps b) (rels g) \<longleftrightarrow> edges_from_to g t a b \<noteq> []"
    using assms by (auto simp: list_ex_iff edges_from_to_def filter_empty_conv merge_match_def)
  then show ?thesis
    by (simp add: merge_rel_def add_rel_def)
qed

lemma one_of_at_most_one:
  "length xs \<le> 1 \<Longrightarrow> xs \<noteq> [] \<Longrightarrow> length xs = 1"
  by (cases xs) auto

text \<open>A step that establishes a property from a weaker one, repeated on the same row.\<close>

lemma foldl_same_row:
  assumes step: "\<And>g. Pre g \<Longrightarrow> Post (f g a)"
      and weaken: "\<And>g. Post g \<Longrightarrow> Pre g"
  shows "Pre g \<Longrightarrow> xs \<noteq> [] \<Longrightarrow> set xs \<subseteq> {a} \<Longrightarrow> Post (foldl f g xs)"
proof (induction xs arbitrary: g)
  case Nil
  then show ?case by simp
next
  case (Cons x xs)
  then have x: "x = a" by simp
  show ?case
  proof (cases "xs = []")
    case True
    with Cons.prems(1) x True show ?thesis by (simp add: step)
  next
    case False
    have "Pre (f g a)" by (rule weaken, rule step, rule Cons.prems(1))
    from Cons.IH [OF this False] Cons.prems(3) x show ?thesis by simp
  qed
qed

lemma spouse_row_paired:
  assumes ne: "a \<noteq> b"
      and ab: "length (edges_from_to g ''SPOUSE'' a b) \<le> 1"
      and ba: "length (edges_from_to g ''SPOUSE'' b a) \<le> 1"
  shows "paired (spouse_row st mo mt g (a, b)) ''SPOUSE'' a b (spouse_meta st mo mt)"
proof -
  let ?g1 = "merge_rel g a ''SPOUSE'' [] b"
  let ?g2 = "merge_rel ?g1 b ''SPOUSE'' [] a"
  have r1: "rels ?g1 = rels g @ (if edges_from_to g ''SPOUSE'' a b = []
              then [\<lparr> src = a, rtype = ''SPOUSE'', dst = b, rprops = map_of [] \<rparr>] else [])"
    by (rule merge_rel_rels) (simp add: merge_match_def)
  have r2: "rels ?g2 = rels ?g1 @ (if edges_from_to ?g1 ''SPOUSE'' b a = []
              then [\<lparr> src = b, rtype = ''SPOUSE'', dst = a, rprops = map_of [] \<rparr>] else [])"
    by (rule merge_rel_rels) (simp add: merge_match_def)
  have e1: "edges_from_to ?g1 ''SPOUSE'' b a = edges_from_to g ''SPOUSE'' b a"
    using ne by (simp add: edges_from_to_def r1 is_rel_def)
  have c_ab: "length (edges_from_to ?g2 ''SPOUSE'' a b) = 1"
    using ne ab one_of_at_most_one [OF ab]
    by (auto simp: edges_from_to_def r1 r2 is_rel_def)
  have c_ba: "length (edges_from_to ?g2 ''SPOUSE'' b a) = 1"
    using ne ba one_of_at_most_one [OF ba] e1
    by (auto simp: edges_from_to_def r1 r2 is_rel_def)
  have m: "\<forall>r \<in> set (rels (spouse_row st mo mt g (a, b))).
             is_rel a ''SPOUSE'' b r \<or> is_rel b ''SPOUSE'' a r \<longrightarrow> spouse_meta st mo mt (rprops r)"
    by (auto simp: spouse_row_def update_rels_def spouse_meta_def spouse_props_def)
  have "length (edges_from_to (spouse_row st mo mt g (a, b)) ''SPOUSE'' a b) = 1"
       "length (edges_from_to (spouse_row st mo mt g (a, b)) ''SPOUSE'' b a) = 1"
    using c_ab c_ba by (simp_all add: spouse_row_def edges_update_rels)
  moreover have "\<forall>r \<in> set (edges_from_to (spouse_row st mo mt g (a, b)) ''SPOUSE'' a b
                          @ edges_from_to (spouse_row st mo mt g (a, b)) ''SPOUSE'' b a).
                   spouse_meta st mo mt (rprops r)"
    using m by (auto simp: edges_from_to_def)
  ultimately show ?thesis
    by (simp add: paired_def)
qed


lemma pairs_unique:
  assumes "match_nodes g Person ''id'' (S person1_id) = [p1]"
      and "match_nodes g Person ''id'' (S person2_id) = [p2]"
  shows "set (owned_pairs g person1_id person2_id user_id) \<subseteq> {(nid p1, nid p2)}"
    and "set (legacy_pairs g person1_id person2_id user_id) \<subseteq> {(nid p1, nid p2)}"
    and "set (sibling_pairs g person1_id person2_id user_id) \<subseteq> {(nid p1, nid p2)}"
  by (auto simp: owned_pairs_def legacy_pairs_def sibling_pairs_def assms)

lemma set_between_paired:
  assumes "k \<notin> {''status'', ''marriage_order'', ''marriage_type''}"
      and "paired g ''SPOUSE'' a b (spouse_meta st mo mt)"
  shows "paired (set_between g person1_id person2_id k v) ''SPOUSE'' a b (spouse_meta st mo mt)"
proof (cases v)
  case None
  with assms(2) show ?thesis by (simp add: set_between_def)
next
  case (Some y)
  have "spouse_meta st mo mt (m(k \<mapsto> I y))" if "spouse_meta st mo mt m" for m
    using that assms(1) by (auto simp: spouse_meta_def)
  from update_rels_paired [where Q = "spouse_meta st mo mt" and f = "\<lambda>m. m(k \<mapsto> I y)", OF this assms(2)]
  show ?thesis by (simp add: set_between_def Some)
qed

lemma add_spouse_paired:
  assumes u1: "match_nodes g Person ''id'' (S person1_id) = [p1]"
      and u2: "match_nodes g Person ''id'' (S person2_id) = [p2]"
      and ne: "nid p1 \<noteq> nid p2"
      and ab: "length (edges_from_to g ''SPOUSE'' (nid p1) (nid p2)) \<le> 1"
      and ba: "length (edges_from_to g ''SPOUSE'' (nid p2) (nid p1)) \<le> 1"
      and ok: "add_spouse g person1_id person2_id user_id marriage_year divorce_year status
                 marriage_type marriage_order = (True, g')"
  shows "paired g' ''SPOUSE'' (nid p1) (nid p2)
           (spouse_meta status marriage_order
              (case marriage_type of None \<Rightarrow> cps ''civil'' | Some t \<Rightarrow> t))"
proof -
  let ?mt = "case marriage_type of None \<Rightarrow> cps ''civil'' | Some t \<Rightarrow> t"
  let ?rows = "if owned_pairs g person1_id person2_id user_id \<noteq> []
               then owned_pairs g person1_id person2_id user_id
               else legacy_pairs g person1_id person2_id user_id"
  let ?Q = "spouse_meta status marriage_order ?mt"
  from ok have ne_rows: "?rows \<noteq> []"
    by (auto simp: add_spouse_def Let_def split: if_splits)
  have sub: "set ?rows \<subseteq> {(nid p1, nid p2)}"
    using pairs_unique(1,2) [OF u1 u2, of user_id] by (simp split: if_splits)
  have step: "paired (spouse_row status marriage_order ?mt h (nid p1, nid p2)) ''SPOUSE'' (nid p1) (nid p2) ?Q"
    if "length (edges_from_to h ''SPOUSE'' (nid p1) (nid p2)) \<le> 1
        \<and> length (edges_from_to h ''SPOUSE'' (nid p2) (nid p1)) \<le> 1" for h
    using that by (intro spouse_row_paired ne) simp_all
  have folded: "paired (foldl (spouse_row status marriage_order ?mt) g ?rows) ''SPOUSE''
                  (nid p1) (nid p2) ?Q"
    by (rule foldl_same_row
          [where Pre = "\<lambda>h. length (edges_from_to h ''SPOUSE'' (nid p1) (nid p2)) \<le> 1
                            \<and> length (edges_from_to h ''SPOUSE'' (nid p2) (nid p1)) \<le> 1"
             and Post = "\<lambda>h. paired h ''SPOUSE'' (nid p1) (nid p2) ?Q"
             and a = "(nid p1, nid p2)"])
       (use step paired_at_most_one ab ba ne_rows sub in \<open>blast+\<close>)
  have "g' = set_between
               (set_between (foldl (spouse_row status marriage_order ?mt) g ?rows)
                  person1_id person2_id ''marriage_year'' marriage_year)
               person1_id person2_id ''divorce_year'' divorce_year"
    using ok ne_rows by (simp add: add_spouse_def Let_def split: if_splits)
  then show ?thesis
    using folded by (simp add: set_between_paired)
qed

lemma sibling_row_paired:
  assumes ne: "a \<noteq> b"
      and ab: "length (edges_from_to g ''SIBLING'' a b) \<le> 1"
      and ba: "length (edges_from_to g ''SIBLING'' b a) \<le> 1"
      and ty: "\<forall>r \<in> set (edges_from_to g ''SIBLING'' a b @ edges_from_to g ''SIBLING'' b a).
                 sibling_meta t (rprops r)"
  shows "paired (sibling_row t g (a, b)) ''SIBLING'' a b (sibling_meta t)"
proof -
  let ?g1 = "merge_rel g a ''SIBLING'' [(''type'', S t)] b"
  let ?g2 = "merge_rel ?g1 b ''SIBLING'' [(''type'', S t)] a"
  have r1: "rels ?g1 = rels g @ (if edges_from_to g ''SIBLING'' a b = []
              then [\<lparr> src = a, rtype = ''SIBLING'', dst = b, rprops = map_of [(''type'', S t)] \<rparr>]
              else [])"
    using ty by (intro merge_rel_rels) (auto simp: merge_match_def edges_from_to_def sibling_meta_def)
  have e1: "edges_from_to ?g1 ''SIBLING'' b a = edges_from_to g ''SIBLING'' b a"
    using ne by (simp add: edges_from_to_def r1 is_rel_def)
  have r2: "rels ?g2 = rels ?g1 @ (if edges_from_to ?g1 ''SIBLING'' b a = []
              then [\<lparr> src = b, rtype = ''SIBLING'', dst = a, rprops = map_of [(''type'', S t)] \<rparr>]
              else [])"
  proof (rule merge_rel_rels, intro ballI impI)
    fix r assume r: "r \<in> set (rels ?g1)" and d: "is_rel b ''SIBLING'' a r"
    from d have sb: "src r = b" by (simp add: is_rel_def)
    have "r \<noteq> \<lparr> src = a, rtype = ''SIBLING'', dst = b, rprops = map_of [(''type'', S t)] \<rparr>"
    proof
      assume "r = \<lparr> src = a, rtype = ''SIBLING'', dst = b, rprops = map_of [(''type'', S t)] \<rparr>"
      then have "src r = a" by simp
      with sb ne show False by simp
    qed
    with r have "r \<in> set (rels g)"
      by (auto simp: r1 split: if_splits)
    with d have "r \<in> set (edges_from_to g ''SIBLING'' a b @ edges_from_to g ''SIBLING'' b a)"
      by (auto simp: edges_from_to_def)
    with ty have "sibling_meta t (rprops r)" by blast
    with d show "merge_match b ''SIBLING'' [(''type'', S t)] a r"
      by (simp add: merge_match_def sibling_meta_def)
  qed
  have c_ab: "length (edges_from_to ?g2 ''SIBLING'' a b) = 1"
    using ne ab one_of_at_most_one [OF ab]
    by (auto simp: edges_from_to_def r1 r2 is_rel_def)
  have c_ba: "length (edges_from_to ?g2 ''SIBLING'' b a) = 1"
    using ne ba one_of_at_most_one [OF ba] e1
    by (auto simp: edges_from_to_def r1 r2 is_rel_def)
  have m: "sibling_meta t (rprops r)"
    if r: "r \<in> set (rels ?g2)" and d: "is_rel a ''SIBLING'' b r \<or> is_rel b ''SIBLING'' a r" for r
  proof -
    from r have "r \<in> set (rels g)
        \<or> r = \<lparr> src = a, rtype = ''SIBLING'', dst = b, rprops = map_of [(''type'', S t)] \<rparr>
        \<or> r = \<lparr> src = b, rtype = ''SIBLING'', dst = a, rprops = map_of [(''type'', S t)] \<rparr>"
      by (auto simp: r1 r2 split: if_splits)
    then show ?thesis
    proof (elim disjE)
      assume "r \<in> set (rels g)"
      with d have "r \<in> set (edges_from_to g ''SIBLING'' a b @ edges_from_to g ''SIBLING'' b a)"
        by (auto simp: edges_from_to_def)
      with ty show ?thesis by blast
    next
      assume "r = \<lparr> src = a, rtype = ''SIBLING'', dst = b, rprops = map_of [(''type'', S t)] \<rparr>"
      then have "rprops r = map_of [(''type'', S t)]" by simp
      then show ?thesis by (simp add: sibling_meta_def)
    next
      assume "r = \<lparr> src = b, rtype = ''SIBLING'', dst = a, rprops = map_of [(''type'', S t)] \<rparr>"
      then have "rprops r = map_of [(''type'', S t)]" by simp
      then show ?thesis by (simp add: sibling_meta_def)
    qed
  qed
  have m': "\<forall>r \<in> set (edges_from_to ?g2 ''SIBLING'' a b @ edges_from_to ?g2 ''SIBLING'' b a).
             sibling_meta t (rprops r)"
    using m by (auto simp: edges_from_to_def)
  from c_ab c_ba m' show ?thesis
    by (simp add: paired_def sibling_row_def)
qed

lemma add_sibling_paired:
  assumes u1: "match_nodes g Person ''id'' (S person1_id) = [p1]"
      and u2: "match_nodes g Person ''id'' (S person2_id) = [p2]"
      and ne: "nid p1 \<noteq> nid p2"
      and ab: "length (edges_from_to g ''SIBLING'' (nid p1) (nid p2)) \<le> 1"
      and ba: "length (edges_from_to g ''SIBLING'' (nid p2) (nid p1)) \<le> 1"
      and ty: "\<forall>r \<in> set (edges_from_to g ''SIBLING'' (nid p1) (nid p2)
                            @ edges_from_to g ''SIBLING'' (nid p2) (nid p1)).
                 sibling_meta (sibling_value sibling_type) (rprops r)"
      and ok: "add_sibling g person1_id person2_id user_id sibling_type = (True, g')"
  shows "paired g' ''SIBLING'' (nid p1) (nid p2) (sibling_meta (sibling_value sibling_type))"
proof -
  let ?t = "sibling_value sibling_type"
  let ?rows = "sibling_pairs g person1_id person2_id user_id"
  let ?Pre = "\<lambda>h. length (edges_from_to h ''SIBLING'' (nid p1) (nid p2)) \<le> 1
                \<and> length (edges_from_to h ''SIBLING'' (nid p2) (nid p1)) \<le> 1
                \<and> (\<forall>r \<in> set (edges_from_to h ''SIBLING'' (nid p1) (nid p2)
                                 @ edges_from_to h ''SIBLING'' (nid p2) (nid p1)).
                       sibling_meta ?t (rprops r))"
  let ?Post = "\<lambda>h. paired h ''SIBLING'' (nid p1) (nid p2) (sibling_meta ?t)"
  from ok have ne_rows: "?rows \<noteq> []" and g': "g' = foldl (sibling_row ?t) g ?rows"
    by (auto simp: add_sibling_def Let_def)
  have sub: "set ?rows \<subseteq> {(nid p1, nid p2)}"
    by (rule pairs_unique(3) [OF u1 u2])
  have step: "?Post (sibling_row ?t h (nid p1, nid p2))" if "?Pre h" for h
    using that by (intro sibling_row_paired ne) simp_all
  have weaken: "?Pre h" if "?Post h" for h
    using that by (simp add: paired_def)
  have pre: "?Pre g" using ab ba ty by simp
  have "?Post (foldl (sibling_row ?t) g ?rows)"
  proof (rule foldl_same_row [where Pre = ?Pre and Post = ?Post and a = "(nid p1, nid p2)"
           and f = "sibling_row ?t"])
    show "?Post (sibling_row ?t h (nid p1, nid p2))" if "?Pre h" for h
      using that by (rule step)
    show "?Pre h" if "?Post h" for h
      using that by (rule weaken)
    show "?Pre g" by (rule pre)
    show "?rows \<noteq> []" by (rule ne_rows)
    show "set ?rows \<subseteq> {(nid p1, nid p2)}" by (rule sub)
  qed
  with g' show ?thesis by simp
qed

lemma rel_type_symmetric:
  assumes "t \<in> {''SPOUSE'', ''SIBLING''}"
  shows "(case map_of relation_map t of Some t' \<Rightarrow> t' | None \<Rightarrow> upper t) = t"
    and "plain_identifier t"
proof -
  from assms consider "t = ''SPOUSE''" | "t = ''SIBLING''" by blast
  then show "(case map_of relation_map t of Some t' \<Rightarrow> t' | None \<Rightarrow> upper t) = t"
  proof cases
    case 1
    then show ?thesis by (simp add: relation_map_def)
  next
    case 2
    then show ?thesis by (simp add: relation_map_def upper_def char_in_def)
  qed
  from assms consider "t = ''SPOUSE''" | "t = ''SIBLING''" by blast
  then show "plain_identifier t"
    by cases (simp_all add: plain_identifier_def ident_char_def char_in_def)
qed

lemma create_relationship_one_way:
  assumes u1: "match_nodes g Person ''id'' (S from_id) = [p1]"
      and u2: "match_nodes g Person ''id'' (S to_id) = [p2]"
      and ne: "nid p1 \<noteq> nid p2"
      and t: "t \<in> {''SPOUSE'', ''SIBLING''}"
      and ab: "edges_from_to g t (nid p1) (nid p2) = []"
      and ba: "edges_from_to g t (nid p2) (nid p1) = []"
  shows "\<exists>g'. create_relationship g now from_id to_id t metadata = (True, g')
              \<and> length (edges_from_to g' t (nid p1) (nid p2)) = 1
              \<and> edges_from_to g' t (nid p2) (nid p1) = []"
proof -
  let ?md = "case metadata of None \<Rightarrow> [] | Some items \<Rightarrow> items"
  let ?g1 = "merge_rel g (nid p1) t [] (nid p2)"
  let ?g' = "relationship_row now t ?md g (nid p1, nid p2)"
  have cr: "create_relationship g now from_id to_id t metadata = (True, ?g')"
    by (simp add: create_relationship_def rel_type_symmetric [OF t] u1 u2 Let_def)
  have r1: "rels ?g1 = rels g @ [\<lparr> src = nid p1, rtype = t, dst = nid p2, rprops = map_of [] \<rparr>]"
    using merge_rel_rels [where g = g and a = "nid p1" and t = t and ps = "[]" and b = "nid p2"] ab
    by (simp add: merge_match_def)
  have "length (edges_from_to ?g1 t (nid p1) (nid p2)) = 1"
    using ab by (simp add: edges_from_to_def r1 is_rel_def)
  moreover have "edges_from_to ?g1 t (nid p2) (nid p1) = []"
    using ba ne by (simp add: edges_from_to_def r1 is_rel_def)
  ultimately have "length (edges_from_to ?g' t (nid p1) (nid p2)) = 1"
                  "edges_from_to ?g' t (nid p2) (nid p1) = []"
    by (simp_all add: relationship_row_def edges_update_rels)
  with cr show ?thesis by blast
qed

text \<open>
  C4, amended. Let the two ids denote one \<open>Person\<close> node each, and the two nodes differ.
  After \<open>add_spouse\<close> succeeds, on a graph with at most one \<open>SPOUSE\<close> relationship in
  each direction between them, there is exactly one in each direction and both carry the
  status, the ordinal and the marriage type of the call. After \<open>add_sibling\<close> succeeds, on
  a graph whose \<open>SIBLING\<close> relationships between them are at most one in each direction
  and carry the classification of the call, there is exactly one in each direction and
  both carry that classification. \<open>create_relationship\<close> records the one direction it is
  asked for: on a graph with no such relationship between the two, it leaves exactly one
  from the first to the second and none back.
\<close>

theorem symmetric_pairs:
  assumes "match_nodes g Person ''id'' (S person1_id) = [p1]"
      and "match_nodes g Person ''id'' (S person2_id) = [p2]"
      and "nid p1 \<noteq> nid p2"
  shows
    "(length (edges_from_to g ''SPOUSE'' (nid p1) (nid p2)) \<le> 1
      \<and> length (edges_from_to g ''SPOUSE'' (nid p2) (nid p1)) \<le> 1
      \<and> add_spouse g person1_id person2_id user_id marriage_year divorce_year status
            marriage_type marriage_order = (True, g1)
      \<longrightarrow> paired g1 ''SPOUSE'' (nid p1) (nid p2)
            (spouse_meta status marriage_order
               (case marriage_type of None \<Rightarrow> cps ''civil'' | Some t \<Rightarrow> t)))
     \<and> (length (edges_from_to g ''SIBLING'' (nid p1) (nid p2)) \<le> 1
        \<and> length (edges_from_to g ''SIBLING'' (nid p2) (nid p1)) \<le> 1
        \<and> (\<forall>r \<in> set (edges_from_to g ''SIBLING'' (nid p1) (nid p2)
                         @ edges_from_to g ''SIBLING'' (nid p2) (nid p1)).
               sibling_meta (sibling_value sibling_type) (rprops r))
        \<and> add_sibling g person1_id person2_id user_id sibling_type = (True, g2)
      \<longrightarrow> paired g2 ''SIBLING'' (nid p1) (nid p2) (sibling_meta (sibling_value sibling_type)))
     \<and> (t \<in> {''SPOUSE'', ''SIBLING''}
        \<and> edges_from_to g t (nid p1) (nid p2) = [] \<and> edges_from_to g t (nid p2) (nid p1) = []
      \<longrightarrow> (\<exists>g3. create_relationship g now person1_id person2_id t metadata = (True, g3)
                \<and> length (edges_from_to g3 t (nid p1) (nid p2)) = 1
                \<and> edges_from_to g3 t (nid p2) (nid p1) = []))"
proof (intro conjI impI)
  assume h: "length (edges_from_to g ''SPOUSE'' (nid p1) (nid p2)) \<le> 1
      \<and> length (edges_from_to g ''SPOUSE'' (nid p2) (nid p1)) \<le> 1
      \<and> add_spouse g person1_id person2_id user_id marriage_year divorce_year status
            marriage_type marriage_order = (True, g1)"
  then have h1: "length (edges_from_to g ''SPOUSE'' (nid p1) (nid p2)) \<le> 1"
    and h2: "length (edges_from_to g ''SPOUSE'' (nid p2) (nid p1)) \<le> 1"
    and h3: "add_spouse g person1_id person2_id user_id marriage_year divorce_year status
            marriage_type marriage_order = (True, g1)"
    by simp_all
  show "paired g1 ''SPOUSE'' (nid p1) (nid p2)
            (spouse_meta status marriage_order
               (case marriage_type of None \<Rightarrow> cps ''civil'' | Some t \<Rightarrow> t))"
    by (rule add_spouse_paired [OF assms h1 h2 h3])
next
  assume h: "length (edges_from_to g ''SIBLING'' (nid p1) (nid p2)) \<le> 1
        \<and> length (edges_from_to g ''SIBLING'' (nid p2) (nid p1)) \<le> 1
        \<and> (\<forall>r \<in> set (edges_from_to g ''SIBLING'' (nid p1) (nid p2)
                         @ edges_from_to g ''SIBLING'' (nid p2) (nid p1)).
               sibling_meta (sibling_value sibling_type) (rprops r))
        \<and> add_sibling g person1_id person2_id user_id sibling_type = (True, g2)"
  then have h1: "length (edges_from_to g ''SIBLING'' (nid p1) (nid p2)) \<le> 1"
    and h2: "length (edges_from_to g ''SIBLING'' (nid p2) (nid p1)) \<le> 1"
    and h3: "\<forall>r \<in> set (edges_from_to g ''SIBLING'' (nid p1) (nid p2)
                         @ edges_from_to g ''SIBLING'' (nid p2) (nid p1)).
               sibling_meta (sibling_value sibling_type) (rprops r)"
    and h4: "add_sibling g person1_id person2_id user_id sibling_type = (True, g2)"
    by blast+
  show "paired g2 ''SIBLING'' (nid p1) (nid p2) (sibling_meta (sibling_value sibling_type))"
    by (rule add_sibling_paired [OF assms h1 h2 h3 h4])
next
  assume h: "t \<in> {''SPOUSE'', ''SIBLING''}
        \<and> edges_from_to g t (nid p1) (nid p2) = [] \<and> edges_from_to g t (nid p2) (nid p1) = []"
  then have h1: "t \<in> {''SPOUSE'', ''SIBLING''}"
    and h2: "edges_from_to g t (nid p1) (nid p2) = []"
    and h3: "edges_from_to g t (nid p2) (nid p1) = []"
    by blast+
  show "\<exists>g3. create_relationship g now person1_id person2_id t metadata = (True, g3)
                \<and> length (edges_from_to g3 t (nid p1) (nid p2)) = 1
                \<and> edges_from_to g3 t (nid p2) (nid p1) = []"
    by (rule create_relationship_one_way [OF assms h1 h2 h3])
qed

text \<open>
  C4, as the claim states it, fails: \<open>create_relationship\<close> with the type \<open>SPOUSE\<close> between
  two persons leaves one relationship from the first to the second and none back.
\<close>

theorem create_relationship_half_edge_counterexample:
  "map nid (match_nodes two_persons Person ''id'' (S (cps ''p1''))) = [2]
   \<and> map nid (match_nodes two_persons Person ''id'' (S (cps ''p2''))) = [3]
   \<and> fst (create_relationship two_persons (cps ''2026-01-02T00:00:00'') (cps ''p1'') (cps ''p2'')
             ''SPOUSE'' None) = True
   \<and> length (edges_from_to
               (snd (create_relationship two_persons (cps ''2026-01-02T00:00:00'') (cps ''p1'')
                       (cps ''p2'') ''SPOUSE'' None)) ''SPOUSE'' 2 3) = 1
   \<and> edges_from_to
         (snd (create_relationship two_persons (cps ''2026-01-02T00:00:00'') (cps ''p1'')
                 (cps ''p2'') ''SPOUSE'' None)) ''SPOUSE'' 3 2 = []"
  by (simp add: two_persons_eq create_relationship_def relation_map_def
        plain_identifier_def ident_char_def char_in_def relationship_row_def
        relationship_props_def merge_rel_def merge_match_def update_rels_def gdefs
        plain_person_def user_node_def edges_from_to_def)


theorem symmetric_pairs_witness:
  "match_nodes two_persons Person ''id'' (S (cps ''p1'')) = [plain_person 2 (cps ''p1'')]
   \<and> match_nodes two_persons Person ''id'' (S (cps ''p2'')) = [plain_person 3 (cps ''p2'')]
   \<and> fst (add_spouse two_persons (cps ''p1'') (cps ''p2'') (cps ''alice'') (Some 1950) None
             (cps ''married'') None 1) = True
   \<and> paired (snd (add_spouse two_persons (cps ''p1'') (cps ''p2'') (cps ''alice'') (Some 1950) None
                     (cps ''married'') None 1))
        ''SPOUSE'' 2 3 (spouse_meta (cps ''married'') 1 (cps ''civil''))
   \<and> map nid (match_nodes two_orphans Person ''id'' (S (cps ''p1''))) = [0]
   \<and> map nid (match_nodes two_orphans Person ''id'' (S (cps ''p2''))) = [1]
   \<and> fst (add_sibling two_orphans (cps ''p1'') (cps ''p2'') (cps ''nobody'') HALF) = True
   \<and> paired (snd (add_sibling two_orphans (cps ''p1'') (cps ''p2'') (cps ''nobody'') HALF))
        ''SIBLING'' 0 1 (sibling_meta (cps ''half''))
   \<and> (\<exists>g3. create_relationship two_persons (cps ''2026-01-02T00:00:00'') (cps ''p1'') (cps ''p2'')
               ''SIBLING'' None = (True, g3)
            \<and> length (edges_from_to g3 ''SIBLING'' 2 3) = 1
            \<and> edges_from_to g3 ''SIBLING'' 3 2 = [])"
proof -
  have p: "match_nodes two_persons Person ''id'' (S (cps ''p1'')) = [plain_person 2 (cps ''p1'')]"
          "match_nodes two_persons Person ''id'' (S (cps ''p2'')) = [plain_person 3 (cps ''p2'')]"
          "nid (plain_person 2 (cps ''p1'')) \<noteq> nid (plain_person 3 (cps ''p2''))"
    by (simp_all add: two_persons_eq gdefs plain_person_def user_node_def)
  have e: "edges_from_to two_persons t 2 3 = []" "edges_from_to two_persons t 3 2 = []" for t
    by (simp_all add: two_persons_eq edges_from_to_def is_rel_def)
  have "fst (add_spouse two_persons (cps ''p1'') (cps ''p2'') (cps ''alice'') (Some 1950) None
             (cps ''married'') None 1) = True"
    by (simp add: add_spouse_def owned_pairs_def two_persons_eq gdefs plain_person_def user_node_def)
  then have sp: "add_spouse two_persons (cps ''p1'') (cps ''p2'') (cps ''alice'') (Some 1950) None
                   (cps ''married'') None 1
                 = (True, snd (add_spouse two_persons (cps ''p1'') (cps ''p2'') (cps ''alice'')
                                 (Some 1950) None (cps ''married'') None 1))"
    by (simp add: prod_eq_iff)
  let ?o1 = "nodes two_orphans ! 0" and ?o2 = "nodes two_orphans ! 1"
  have q: "match_nodes two_orphans Person ''id'' (S (cps ''p1'')) = [?o1]"
          "match_nodes two_orphans Person ''id'' (S (cps ''p2'')) = [?o2]"
          "nid ?o1 \<noteq> nid ?o2" "nid ?o1 = 0" "nid ?o2 = 1"
    by (simp_all add: two_orphans_eq gdefs legacy_person_def)
  have f: "edges_from_to two_orphans t a b = []" for t a b
    by (simp add: two_orphans_eq edges_from_to_def legacy_person_def)
  have "fst (add_sibling two_orphans (cps ''p1'') (cps ''p2'') (cps ''nobody'') HALF) = True"
    by (simp add: add_sibling_def sibling_pairs_def two_orphans_eq gdefs legacy_person_def)
  then have sb: "add_sibling two_orphans (cps ''p1'') (cps ''p2'') (cps ''nobody'') HALF
                 = (True, snd (add_sibling two_orphans (cps ''p1'') (cps ''p2'') (cps ''nobody'') HALF))"
    by (simp add: prod_eq_iff)
  from symmetric_pairs [OF p, where user_id = "cps ''alice''" and marriage_year = "Some 1950"
          and divorce_year = None and status = "cps ''married''" and marriage_type = None
          and marriage_order = 1
          and ?g1.0 = "snd (add_spouse two_persons (cps ''p1'') (cps ''p2'') (cps ''alice'')
                          (Some 1950) None (cps ''married'') None 1)"
          and t = "''SIBLING''" and now = "cps ''2026-01-02T00:00:00''" and metadata = None]
       sp e
  have a: "paired (snd (add_spouse two_persons (cps ''p1'') (cps ''p2'') (cps ''alice'') (Some 1950) None
                     (cps ''married'') None 1))
             ''SPOUSE'' 2 3 (spouse_meta (cps ''married'') 1 (cps ''civil''))"
    and c: "\<exists>g3. create_relationship two_persons (cps ''2026-01-02T00:00:00'') (cps ''p1'') (cps ''p2'')
               ''SIBLING'' None = (True, g3)
            \<and> length (edges_from_to g3 ''SIBLING'' 2 3) = 1
            \<and> edges_from_to g3 ''SIBLING'' 3 2 = []"
    by (simp_all add: plain_person_def)
  from symmetric_pairs [OF q(1,2,3), where user_id = "cps ''nobody''" and sibling_type = HALF
          and ?g2.0 = "snd (add_sibling two_orphans (cps ''p1'') (cps ''p2'') (cps ''nobody'') HALF)"]
       sb f q(4,5)
  have b: "paired (snd (add_sibling two_orphans (cps ''p1'') (cps ''p2'') (cps ''nobody'') HALF))
             ''SIBLING'' 0 1 (sibling_meta (cps ''half''))"
    by simp
  from p q \<open>fst (add_spouse two_persons (cps ''p1'') (cps ''p2'') (cps ''alice'') (Some 1950) None
             (cps ''married'') None 1) = True\<close>
       \<open>fst (add_sibling two_orphans (cps ''p1'') (cps ''p2'') (cps ''nobody'') HALF) = True\<close>
       a b c
  show ?thesis by simp
qed

end
